theory Spec2Isabelle
  imports Complex_Main "HOL-Library.Sublist"
begin

section \<open>The launch task of itch (src/tasks/launch.ts)\<close>

text \<open>
  A shallow embedding of \<^verbatim>\<open>src/tasks/launch.ts\<close>: the readiness checker
  \<^verbatim>\<open>caveProblem\<close>, the launch-type classifier \<^verbatim>\<open>launchTypeForAction\<close>,
  the playtime tick and the orchestrator \<^verbatim>\<open>doStart\<close>.

  JavaScript values are modelled as follows. A field that may be \<^verbatim>\<open>undefined\<close> is an
  \<open>option\<close>; a thrown exception is the \<open>Inl\<close> of a sum; timestamps (\<^verbatim>\<open>Date.now()\<close>, in
  milliseconds) and second counts are \<open>int\<close>; strings are \<open>string\<close>. The collaborators
  that the file imports (the store, the modal, the API client, the launch strategies, the
  binary probe, the clock) are not part of the file: what they answer during one call is
  collected in the record \<open>world\<close>, and what the call does to them is logged, in order,
  in the \<open>trace\<close> of the state. The logger is left out.

  The options of the task are typed: the cave, the preferences and the credentials are
  there, so that the four \<^verbatim>\<open>invariant\<close> calls at the head of \<^verbatim>\<open>doStart\<close> hold, and
  the \<^verbatim>\<open>uploads\<close> of a cave are a map that is there. The quotient of line 316 is
  taken in the reals: on whole milliseconds it is above 2 exactly when the difference is
  above 2000. The seconds that a cave has run are whole numbers that a double holds, and
  their sum is rounded as a double rounds it.
\<close>

subsection \<open>Data\<close>

type_synonym timestamp = int

datatype exn =
    Crash string
  | Cancelled
  | Error string "string list option"
  | TypeError string

record game_record =
  game_id :: int
  title :: string
  coverUrl :: "string option"
  stillCoverUrl :: "string option"

record cave_record =
  cave_id :: string
  gameId :: int
  game :: "game_record option"
  launchType :: "string option"
  executables :: "string list option"
  gamePath :: "string option"
  secondsRun :: "int option"
  lastTouched :: "timestamp option"
  uploadId :: string
  uploads :: "string \<rightharpoonup> string"

record manifest_action =
  name :: "string option"
  path :: "string option"
  icon :: "string option"
  args :: "string list option"
  scope :: "string option"

record manifest =
  actions :: "manifest_action list option"

record preferences_record =
  preventDisplaySleep :: bool

record credentials_record =
  key :: string

record start_task_opts =
  cave :: cave_record
  preferences :: preferences_record
  credentials :: credentials_record

type_synonym environment = "string \<rightharpoonup> string"

record launch_opts =
  opts :: start_task_opts
  manifestAction :: "manifest_action option"
  env :: environment
  args_of :: "string list"

record subkey_record =
  subkey_key :: string
  expiresAt :: string

record sniff_result =
  linuxExecutable :: bool
  macExecutable :: bool

text \<open>The fields of a cave that the launch task writes back to the store.\<close>

record cave_fields =
  set_secondsRun :: "int option"
  set_lastTouched :: "timestamp option"

record configure_task =
  task_gameId :: int
  task_cave :: cave_record
  task_upload :: "string option"

record big_button =
  label :: string
  action_name :: string
  button_icon :: string
  className :: string

record modal_spec =
  modal_title :: string
  cover :: "string option"
  bigButtons :: "big_button list"
  buttons :: "string list"

datatype modal_response = ModalResponse string | ModalClosed

datatype event =
    SaveEntity string cave_fields
  | ExplorerOpen string
  | StartTask configure_task
  | SfExists string
  | SfReadFile string
  | PromisedModal modal_spec
  | SubkeyRequest string int string
  | Prepare string launch_opts "manifest option"
  | Launcher string launch_opts
  | SetInterval
  | ClearInterval
  | PowerSaveStart int
  | PowerSaveStop "int option"
  | DiegoHire
  | OpenModal string string
  | LoggerClose

type_synonym cave_store = "string \<rightharpoonup> cave_record"

record state =
  caves :: cave_store
  interval :: bool
  trace :: "event list"

text \<open>
  The answers of the collaborators during one call. \<open>timerFirings\<close> are the readings of
  the clock at the moments the interval timer fires while the launch strategy is pending;
  the four \<open>now\<close> fields are the readings of \<^verbatim>\<open>Date.now()\<close> at its four call sites in
  \<^verbatim>\<open>doStart\<close>. \<open>gameLazily_again\<close> is the answer to the second request for the game, in
  the catch clause of \<^verbatim>\<open>start\<close>; \<open>t_format\<close> is the localizer and \<open>String_of\<close> is
  \<^verbatim>\<open>String(e)\<close>. The probe \<open>fnout_path\<close> may reject (\<open>Inl\<close>) or answer null
  (\<open>Inr None\<close>); \<open>object_prototype\<close> holds the truthy properties that every object
  literal inherits.
\<close>

text \<open>
  What a key inherited from \<^verbatim>\<open>Object.prototype\<close> does when a strategy table answers with
  it and the code calls it as a launch strategy or as a prepare step.
\<close>

record inherited_entry =
  as_launcher :: "launch_opts \<Rightarrow> exn option"
  as_prepare :: "launch_opts \<Rightarrow> manifest option \<Rightarrow> exn option"

record world =
  gameLazily :: "exn + game_record"
  actionForGame :: "game_record option \<Rightarrow> cave_record \<Rightarrow> string"
  startTask :: "configure_task \<Rightarrow> cave_store \<Rightarrow> exn + cave_store"
  appPath :: "cave_record \<Rightarrow> string"
  ospath_join :: "string \<Rightarrow> string \<Rightarrow> string"
  sf_exists :: "string \<Rightarrow> bool"
  readManifest :: "string \<Rightarrow> exn + manifest"
  defaultManifestIcons :: "string \<rightharpoonup> string"
  promisedModal :: "modal_spec \<Rightarrow> modal_response"
  itchPlatform :: string
  fnout_path :: "string \<Rightarrow> exn + sniff_result option"
  object_prototype :: "string \<rightharpoonup> inherited_entry"
  api_subkey :: "string \<Rightarrow> int \<Rightarrow> string \<Rightarrow> exn + subkey_record"
  nativePrepare :: "launch_opts \<Rightarrow> manifest option \<Rightarrow> exn option"
  nativeLaunch :: "launch_opts \<Rightarrow> exn option"
  htmlLaunch :: "launch_opts \<Rightarrow> exn option"
  shellLaunch :: "launch_opts \<Rightarrow> exn option"
  externalLaunch :: "launch_opts \<Rightarrow> exn option"
  timerFirings :: "timestamp list"
  powerSaveBlocker_start :: int
  now_open :: timestamp
  now_startedAt :: timestamp
  now_caught :: timestamp
  now_finally :: timestamp
  gameLazily_again :: "exn + game_record"
  diego_hire :: "exn option"
  t_format :: "string list \<Rightarrow> string"
  String_of :: "exn \<Rightarrow> string"

subsection \<open>Strings and regular expressions\<close>

text \<open>
  The three regular expressions of \<^verbatim>\<open>launchTypeForAction\<close> carry the flag \<^verbatim>\<open>i\<close>. On the
  characters of \<open>string\<close> the case-insensitive comparison is the comparison after ASCII
  lower-casing: an upper-case letter (codes 65 to 90) has bit 5 clear, and setting it adds 32.
\<close>

definition toLowerAscii :: "char \<Rightarrow> char" where
  "toLowerAscii c =
     (if (65::nat) \<le> of_char c \<and> of_char c \<le> (90::nat)
      then Char (digit0 c) (digit1 c) (digit2 c) (digit3 c) (digit4 c) True (digit6 c) (digit7 c)
      else c)"

definition endsWith_ci :: "string \<Rightarrow> string \<Rightarrow> bool" where
  "endsWith_ci ext p = suffix ext (map toLowerAscii p)"

definition startsWith_ci :: "string \<Rightarrow> string \<Rightarrow> bool" where
  "startsWith_ci pre p = prefix pre (map toLowerAscii p)"

text \<open>\<^verbatim>\<open>/\.(app|exe|bat|sh)$/i\<close>\<close>

definition re_native_ext :: "string \<Rightarrow> bool" where
  "re_native_ext p \<longleftrightarrow>
     endsWith_ci ''.app'' p \<or> endsWith_ci ''.exe'' p \<or> endsWith_ci ''.bat'' p \<or> endsWith_ci ''.sh'' p"

text \<open>\<^verbatim>\<open>/\.html?$/i\<close>\<close>

definition re_html_ext :: "string \<Rightarrow> bool" where
  "re_html_ext p \<longleftrightarrow> endsWith_ci ''.htm'' p \<or> endsWith_ci ''.html'' p"

text \<open>\<^verbatim>\<open>/^https?:/i\<close>\<close>

definition re_http :: "string \<Rightarrow> bool" where
  "re_http p \<longleftrightarrow> startsWith_ci ''http:'' p \<or> startsWith_ci ''https:'' p"

text \<open>\<^verbatim>\<open>s.replace(/{{EXT}}/, rep)\<close>: the first occurrence of the pattern is replaced.\<close>

fun replace_first :: "string \<Rightarrow> string \<Rightarrow> string \<Rightarrow> string" where
  "replace_first pat rep [] = (if pat = [] then rep else [])"
| "replace_first pat rep (c # cs) =
     (if prefix pat (c # cs) then rep @ drop (length pat) (c # cs)
      else c # replace_first pat rep cs)"

text \<open>\<^verbatim>\<open>Array.prototype.toString\<close>, as a template literal applies it to the problem.\<close>

fun join_comma :: "string list \<Rightarrow> string" where
  "join_comma [] = []"
| "join_comma [x] = x"
| "join_comma (x # y # ys) = x @ '','' @ join_comma (y # ys)"

subsection \<open>The readiness checker\<close>

definition caveProblem :: "cave_record \<Rightarrow> string list option" where
  "caveProblem c =
     (if launchType c = Some ''native'' then
        (if executables c = None \<or> executables c = Some [] then
           Some [''game.install.no_executables_found'']
         else None)
      else if launchType c = Some ''html'' then
        (if gamePath c = None \<or> gamePath c = Some [] then
           Some [''game.install.no_html_index_found'']
         else None)
      else None)"

subsection \<open>The launch-type classifier\<close>

definition appExt :: "world \<Rightarrow> string" where
  "appExt w =
     (if itchPlatform w = ''osx'' then ''.app''
      else if itchPlatform w = ''windows'' then ''.exe''
      else '''')"

text \<open>
  Lines 340 to 363. The answer of the probe is awaited and its two fields are read without
  a guard: a rejected probe throws its error, a null answer throws a type error.
\<close>

definition launchTypeForAction :: "world \<Rightarrow> string \<Rightarrow> string \<Rightarrow> exn + string" where
  "launchTypeForAction w appPath_v actionPath =
     (if re_native_ext actionPath then Inr ''native''
      else if re_html_ext actionPath then Inr ''html''
      else if re_http actionPath then Inr ''external''
      else
        (let platform = itchPlatform w;
             fullPath = ospath_join w appPath_v actionPath
         in case fnout_path w fullPath of
              Inl e \<Rightarrow> Inl e
            | Inr None \<Rightarrow> Inl (TypeError ''Cannot read property linuxExecutable of null'')
            | Inr (Some sniffRes) \<Rightarrow>
                (if (linuxExecutable sniffRes \<and> platform = ''linux'')
                    \<or> (macExecutable sniffRes \<and> platform = ''osx'')
                 then Inr ''native''
                 else Inr ''shell'')))"

subsection \<open>The store and the playtime tick\<close>

text \<open>
  Modelled from the spec: the package store (\<^verbatim>\<open>../store/metal-store\<close> and the market
  object are not in the sources). \<^verbatim>\<open>get(id) -> record\<close> reads the record kept under an
  identifier.
\<close>

definition getEntity :: "state \<Rightarrow> string \<Rightarrow> cave_record option" where
  "getEntity s i = caves s i"

text \<open>
  Modelled from the spec: the record that a save creates when the store has none under the
  identifier (the store is not in the sources); it has no field but the identifier.
\<close>

definition blank_cave :: "string \<Rightarrow> cave_record" where
  "blank_cave i =
     \<lparr>cave_id = i, gameId = 0, game = None, launchType = None, executables = None,
      gamePath = None, secondsRun = None, lastTouched = None, uploadId = [],
      uploads = Map.empty\<rparr>"

text \<open>
  Modelled from the spec: the whole-field upsert of the store (not in the sources). The
  given fields replace those of the record, the other fields stay.
\<close>

definition upsert :: "cave_fields \<Rightarrow> cave_record \<Rightarrow> cave_record" where
  "upsert f c =
     c\<lparr>secondsRun := (case set_secondsRun f of None \<Rightarrow> secondsRun c | Some n \<Rightarrow> Some n),
       lastTouched := (case set_lastTouched f of None \<Rightarrow> lastTouched c | Some t \<Rightarrow> Some t)\<rparr>"

text \<open>
  Modelled from the spec: \<^verbatim>\<open>save(id, partialFields)\<close> of the store (not in the sources),
  an upsert of the record under the identifier. The call is logged.
\<close>

definition saveEntity :: "string \<Rightarrow> cave_fields \<Rightarrow> state \<Rightarrow> state" where
  "saveEntity i f s =
     s\<lparr>caves := (caves s)(i \<mapsto> upsert f (case caves s i of None \<Rightarrow> blank_cave i | Some c \<Rightarrow> c)),
       trace := trace s @ [SaveEntity i f]\<rparr>"

definition UPDATE_PLAYTIME_INTERVAL :: int where
  "UPDATE_PLAYTIME_INTERVAL = 10"

text \<open>
  JavaScript numbers are IEEE doubles. A double has 53 significant bits: a whole number of
  more bits is rounded to the nearest multiple of the power of two that its bits beyond the
  53rd make, and a tie goes to the even multiple. The sum of 10 and a finite double is
  below the largest double, so that no sum of the tick overflows.
\<close>

fun bit_length :: "nat \<Rightarrow> nat" where
  "bit_length n = (if n = 0 then 0 else Suc (bit_length (n div 2)))"

declare bit_length.simps [simp del]

definition to_double :: "int \<Rightarrow> int" where
  "to_double n =
     (let a = nat \<bar>n\<bar>;
          q = 2 ^ (bit_length a - 53);
          lo = (a div q) * q;
          r = a mod q
      in sgn n * int (if 2 * r < q then lo
                      else if q < 2 * r then lo + q
                      else if even (a div q) then lo
                      else lo + q))"

text \<open>\<^verbatim>\<open>a + b\<close> on two whole numbers.\<close>

definition js_add :: "int \<Rightarrow> int \<Rightarrow> int" where
  "js_add a b = to_double (a + b)"

text \<open>\<^verbatim>\<open>x || 0\<close> on a number that may be missing.\<close>

definition or_zero :: "int option \<Rightarrow> int" where
  "or_zero x = (case x of None \<Rightarrow> 0 | Some n \<Rightarrow> n)"

text \<open>
  The callback handed to \<^verbatim>\<open>setInterval\<close> (lines 302 to 307). Reading \<^verbatim>\<open>secondsRun\<close> of a
  record that the store no longer has throws inside the callback, before anything is written.
\<close>

definition playtimeTick :: "string \<Rightarrow> timestamp \<Rightarrow> state \<Rightarrow> exn + state" where
  "playtimeTick i now s =
     (case getEntity s i of
        None \<Rightarrow> Inl (TypeError ''Cannot read property secondsRun of undefined'')
      | Some c \<Rightarrow>
          (let previousSecondsRun = or_zero (secondsRun c);
               newSecondsRun = js_add UPDATE_PLAYTIME_INTERVAL previousSecondsRun
           in Inr (saveEntity i \<lparr>set_secondsRun = Some newSecondsRun, set_lastTouched = Some now\<rparr> s)))"

text \<open>
  The timer fires only between \<^verbatim>\<open>setInterval\<close> and \<^verbatim>\<open>clearInterval\<close>; an exception
  thrown by the callback stays in the timer and leaves the state as it was.
\<close>

fun fire :: "string \<Rightarrow> timestamp list \<Rightarrow> state \<Rightarrow> state" where
  "fire i [] s = s"
| "fire i (t # ts) s =
     fire i ts
       (if interval s then (case playtimeTick i t s of Inl e \<Rightarrow> s | Inr s' \<Rightarrow> s') else s)"

subsection \<open>The orchestrator\<close>

definition emit :: "event \<Rightarrow> state \<Rightarrow> state" where
  "emit e s = s\<lparr>trace := trace s @ [e]\<rparr>"

text \<open>A string that may be missing is truthy when it is there and not empty.\<close>

definition truthy :: "string option \<Rightarrow> bool" where
  "truthy x = (case x of None \<Rightarrow> False | Some v \<Rightarrow> v \<noteq> [])"

fun show_nat :: "nat \<Rightarrow> string" where
  "show_nat n =
     (if n < 10 then [char_of (48 + n)]
      else show_nat (n div 10) @ [char_of (48 + n mod 10)])"

text \<open>
  Lines 166 to 177: when the checker reports a problem, the configure task runs and the
  cave is read again from the store.
\<close>

definition configureIfProblem ::
  "world \<Rightarrow> game_record \<Rightarrow> cave_record \<Rightarrow> state \<Rightarrow> (exn + cave_record option) \<times> state" where
  "configureIfProblem w g c s =
     (case caveProblem c of
        None \<Rightarrow> (Inr (Some c), s)
      | Some problem \<Rightarrow>
          (let task = \<lparr>task_gameId = game_id g, task_cave = c,
                        task_upload = uploads c (uploadId c)\<rparr>;
               s1 = emit (StartTask task) s
           in case startTask w task (caves s1) of
                Inl e \<Rightarrow> (Inl e, s1)
              | Inr cs \<Rightarrow> (Inr (cs (cave_id c)), s1\<lparr>caves := cs\<rparr>)))"

text \<open>
  Lines 179 to 185: the second check. A cave that the store no longer has is
  \<^verbatim>\<open>undefined\<close>, and reading its launch type throws.
\<close>

definition checkProblem :: "cave_record option \<Rightarrow> exn + cave_record" where
  "checkProblem co =
     (case co of
        None \<Rightarrow> Inl (TypeError ''Cannot read property launchType of undefined'')
      | Some c \<Rightarrow>
          (case caveProblem c of
             None \<Rightarrow> Inr c
           | Some problem \<Rightarrow>
               Inl (Error (''The game could not be configured ('' @ join_comma problem @ '')'')
                      (Some problem))))"

text \<open>
  Modelled from the spec: \<^verbatim>\<open>./launch/validate-manifest\<close> is not in the sources. The
  validation asks at least that an \<^verbatim>\<open>actions\<close> list exists and that each action has a
  non-empty name; a failure throws.
\<close>

definition validateManifest :: "manifest \<Rightarrow> exn option" where
  "validateManifest m =
     (case actions m of
        None \<Rightarrow> Some (Error ''in manifest, required field actions is missing'' None)
      | Some acts \<Rightarrow>
          (if list_all (\<lambda>a. truthy (name a)) acts then None
           else Some (Error ''in manifest, an action is missing a name'' None)))"

text \<open>Lines 215 to 225: one big button for each action, in order.\<close>

fun bigButtonsFor :: "world \<Rightarrow> nat \<Rightarrow> manifest_action list \<Rightarrow> exn + big_button list" where
  "bigButtonsFor w i [] = Inr []"
| "bigButtonsFor w i (a # as) =
     (if \<not> truthy (name a) then
        Inl (Error (''in manifest, action '' @ show_nat i @ '' is missing a name'') None)
      else
        (let n = (case name a of None \<Rightarrow> [] | Some v \<Rightarrow> v);
             b = \<lparr>label = ''action.name.'' @ n, action_name = n,
                  button_icon =
                    (if truthy (icon a) then (case icon a of None \<Rightarrow> [] | Some v \<Rightarrow> v)
                     else if truthy (defaultManifestIcons w n)
                       then (case defaultManifestIcons w n of None \<Rightarrow> [] | Some v \<Rightarrow> v)
                     else ''star''),
                  className = ''action-'' @ n\<rparr>
         in case bigButtonsFor w (Suc i) as of
              Inl e \<Rightarrow> Inl e
            | Inr bs \<Rightarrow> Inr (b # bs)))"

text \<open>\<^verbatim>\<open>findWhere(manifest.actions, {name: n})\<close>: the first action of that name.\<close>

definition findWhere_name :: "manifest_action list \<Rightarrow> string \<Rightarrow> manifest_action option" where
  "findWhere_name acts n = find (\<lambda>a. name a = Some n) acts"

datatype resolution = UserCancelled | Resolved "manifest option" "manifest_action option"

text \<open>Lines 189 to 247: looking for the manifest and choosing one action.\<close>

definition resolveManifest ::
  "world \<Rightarrow> game_record \<Rightarrow> string \<Rightarrow> state \<Rightarrow> (exn + resolution) \<times> state" where
  "resolveManifest w g appPath_v s =
     (let manifestPath = ospath_join w appPath_v ''.itch.toml'';
          s1 = emit (SfExists manifestPath) s
      in if sf_exists w manifestPath then
           (let s2 = emit (SfReadFile manifestPath) s1
            in case readManifest w manifestPath of
                 Inl e \<Rightarrow> (Inl e, s2)
               | Inr m \<Rightarrow>
                   (case validateManifest m of
                      Some e \<Rightarrow> (Inl e, s2)
                    | None \<Rightarrow>
                        (case actions m of
                           None \<Rightarrow> (Inl (TypeError ''Cannot read property length of undefined''), s2)
                         | Some acts \<Rightarrow>
                             (if length acts > 1 then
                                (case bigButtonsFor w 0 acts of
                                   Inl e \<Rightarrow> (Inl e, s2)
                                 | Inr bbs \<Rightarrow>
                                     (let spec = \<lparr>modal_title = title g,
                                                   cover = (if truthy (stillCoverUrl g)
                                                            then stillCoverUrl g else coverUrl g),
                                                   bigButtons = bbs,
                                                   buttons = [''cancel'']\<rparr>;
                                          s3 = emit (PromisedModal spec) s2
                                      in case promisedModal w spec of
                                           ModalResponse n \<Rightarrow>
                                             (Inr (Resolved (Some m) (findWhere_name acts n)), s3)
                                         | ModalClosed \<Rightarrow> (Inr UserCancelled, s3)))
                              else
                                (Inr (Resolved (Some m)
                                       (case acts of [] \<Rightarrow> None | a # _ \<Rightarrow> Some a)), s2)))))
         else (Inr (Resolved None None), s1))"

text \<open>
  Lines 249 to 267: the chosen action decides the launch type, and its scope and arguments
  fill the environment and the argument list. The result holds the action (its path with
  the extension filled in), the launch type, the environment and the arguments.
\<close>

definition applyManifestAction ::
  "world \<Rightarrow> start_task_opts \<Rightarrow> game_record \<Rightarrow> string \<Rightarrow> string \<Rightarrow> manifest_action option \<Rightarrow> state
     \<Rightarrow> (exn + manifest_action option \<times> string \<times> environment \<times> string list) \<times> state" where
  "applyManifestAction w ops g appPath_v launchType_v ma s =
     (case ma of
        None \<Rightarrow> (Inr (None, launchType_v, Map.empty, []), s)
      | Some a \<Rightarrow>
          (case path a of
             None \<Rightarrow> (Inl (TypeError ''Cannot read property replace of undefined''), s)
           | Some p \<Rightarrow>
               (let p' = replace_first ''{{EXT}}'' (appExt w) p;
                    a' = a\<lparr>path := Some p'\<rparr>;
                    args_v = (case args a' of None \<Rightarrow> [] | Some xs \<Rightarrow> xs)
                in case launchTypeForAction w appPath_v p' of
                     Inl e \<Rightarrow> (Inl e, s)
                   | Inr lt \<Rightarrow>
                       (if truthy (scope a') then
                          (let sc = (case scope a' of None \<Rightarrow> [] | Some v \<Rightarrow> v);
                               s1 = emit (SubkeyRequest (key (credentials ops)) (game_id g) sc) s
                           in case api_subkey w (key (credentials ops)) (game_id g) sc of
                                Inl e \<Rightarrow> (Inl e, s1)
                              | Inr subkey \<Rightarrow>
                                  (Inr (Some a', lt,
                                        [''ITCHIO_API_KEY'' \<mapsto> subkey_key subkey,
                                         ''ITCHIO_API_KEY_EXPIRES_AT'' \<mapsto> expiresAt subkey],
                                        args_v), s1))
                        else (Inr (Some a', lt, Map.empty, args_v), s)))))"

text \<open>
  Line 250 rewrites the path in the action that the manifest holds: the manifest that the
  prepare step gets has the chosen action, which is the first of its value in the list,
  with the new path.
\<close>

fun update_first :: "'a \<Rightarrow> 'a \<Rightarrow> 'a list \<Rightarrow> 'a list" where
  "update_first x y [] = []"
| "update_first x y (z # zs) = (if z = x then y # zs else z # update_first x y zs)"

definition rewrittenManifest ::
  "manifest option \<Rightarrow> manifest_action option \<Rightarrow> manifest_action option \<Rightarrow> manifest option" where
  "rewrittenManifest m ma ma' =
     (case (m, ma, ma') of
        (Some mf, Some a, Some a') \<Rightarrow> Some (mf\<lparr>actions := map_option (update_first a a') (actions mf)\<rparr>)
      | _ \<Rightarrow> m)"

text \<open>
  Lines 273 to 293: the two strategy tables. A table is an object literal: a key that it
  does not define is looked up in \<^verbatim>\<open>Object.prototype\<close>.
\<close>

definition launchers :: "world \<Rightarrow> string \<Rightarrow> (launch_opts \<Rightarrow> exn option) option" where
  "launchers w lt =
     (if lt = ''native'' then Some (nativeLaunch w)
      else if lt = ''html'' then Some (htmlLaunch w)
      else if lt = ''shell'' then Some (shellLaunch w)
      else if lt = ''external'' then Some (externalLaunch w)
      else map_option as_launcher (object_prototype w lt))"

definition prepares :: "world \<Rightarrow> string \<Rightarrow> (launch_opts \<Rightarrow> manifest option \<Rightarrow> exn option) option" where
  "prepares w lt =
     (if lt = ''native'' then Some (nativePrepare w)
      else map_option as_prepare (object_prototype w lt))"

definition runPrepare ::
  "world \<Rightarrow> string \<Rightarrow> launch_opts \<Rightarrow> manifest option \<Rightarrow> state \<Rightarrow> (exn + unit) \<times> state" where
  "runPrepare w lt lo m s =
     (case prepares w lt of
        None \<Rightarrow> (Inr (), s)
      | Some prepare \<Rightarrow>
          (let s1 = emit (Prepare lt lo m) s
           in case prepare lo m of
                Some e \<Rightarrow> (Inl e, s1)
              | None \<Rightarrow> (Inr (), s1)))"

text \<open>Lines 313 to 329: the catch clause around the launch strategy.\<close>

definition is_Crash :: "exn \<Rightarrow> bool" where
  "is_Crash e = (case e of Crash m \<Rightarrow> True | _ \<Rightarrow> False)"

definition is_Cancelled :: "exn \<Rightarrow> bool" where
  "is_Cancelled e = (case e of Cancelled \<Rightarrow> True | _ \<Rightarrow> False)"

definition secondsRunning :: "world \<Rightarrow> timestamp \<Rightarrow> real" where
  "secondsRunning w startedAt = real_of_int (now_caught w - startedAt) / 1000"

definition catchLaunch :: "world \<Rightarrow> timestamp \<Rightarrow> exn \<Rightarrow> exn + unit" where
  "catchLaunch w startedAt e =
     (if is_Crash e \<and> secondsRunning w startedAt > 2 then Inr ()
      else if is_Cancelled e then Inr ()
      else Inl e)"

text \<open>
  Lines 295 to 337: the launch strategy between the timer and the lock, and the
  \<^verbatim>\<open>finally\<close> clause after it. The timer fires while the strategy is pending.
\<close>

definition runLauncher ::
  "world \<Rightarrow> start_task_opts \<Rightarrow> cave_record \<Rightarrow> string \<Rightarrow> (launch_opts \<Rightarrow> exn option) \<Rightarrow> launch_opts
     \<Rightarrow> state \<Rightarrow> (exn + unit) \<times> state" where
  "runLauncher w ops c lt launcher lo s =
     (let startedAt = now_startedAt w;
          s1 = saveEntity (cave_id c) \<lparr>set_secondsRun = None, set_lastTouched = Some startedAt\<rparr> s;
          s2 = emit SetInterval (s1\<lparr>interval := True\<rparr>);
          powerSaveBlockerId =
            (if preventDisplaySleep (preferences ops) then Some (powerSaveBlocker_start w) else None);
          s3 = (if preventDisplaySleep (preferences ops)
                then emit (PowerSaveStart (powerSaveBlocker_start w)) s2 else s2);
          s4 = fire (cave_id c) (timerFirings w) (emit (Launcher lt lo) s3);
          outcome = (case launcher lo of
                       None \<Rightarrow> Inr ()
                     | Some e \<Rightarrow> catchLaunch w startedAt e);
          s5 = emit ClearInterval (s4\<lparr>interval := False\<rparr>);
          s6 = (if powerSaveBlockerId \<noteq> None then emit (PowerSaveStop powerSaveBlockerId) s5
                else s5);
          s7 = saveEntity (cave_id c) \<lparr>set_secondsRun = None, set_lastTouched = Some (now_finally w)\<rparr> s6
      in (outcome, s7))"

text \<open>
  Lines 144 to 293: everything before the launch strategy starts. The result is an
  exception, or nothing when the call returns early (the action is to open the folder,
  or the user closed the choice of actions), or what the launch needs: the cave, the
  launch type, the launch strategy and its options.
\<close>

type_synonym dispatch = "cave_record \<times> string \<times> (launch_opts \<Rightarrow> exn option) \<times> launch_opts"

definition beforeLaunch :: "world \<Rightarrow> start_task_opts \<Rightarrow> state \<Rightarrow> (exn + dispatch option) \<times> state" where
  "beforeLaunch w ops s =
     (case gameLazily w of
        Inl e \<Rightarrow> (Inl e, s)
      | Inr g \<Rightarrow>
          (if actionForGame w (game (cave ops)) (cave ops) = ''open'' then
             (Inr None,
              emit (ExplorerOpen (appPath w (cave ops)))
                (saveEntity (cave_id (cave ops))
                   \<lparr>set_secondsRun = None, set_lastTouched = Some (now_open w)\<rparr> s))
           else
             (let launchType_v = (case launchType (cave ops) of None \<Rightarrow> ''native'' | Some t \<Rightarrow> t)
              in case configureIfProblem w g (cave ops) s of
                   (Inl e, s1) \<Rightarrow> (Inl e, s1)
                 | (Inr co, s1) \<Rightarrow>
                     (case checkProblem co of
                        Inl e \<Rightarrow> (Inl e, s1)
                      | Inr c \<Rightarrow>
                          (case resolveManifest w g (appPath w c) s1 of
                             (Inl e, s2) \<Rightarrow> (Inl e, s2)
                           | (Inr UserCancelled, s2) \<Rightarrow> (Inr None, s2)
                           | (Inr (Resolved m ma), s2) \<Rightarrow>
                               (case applyManifestAction w ops g (appPath w c) launchType_v ma s2 of
                                  (Inl e, s3) \<Rightarrow> (Inl e, s3)
                                | (Inr (ma', lt, env_v, args_v), s3) \<Rightarrow>
                                    (let lo = \<lparr>opts = ops, manifestAction = ma', env = env_v,
                                               args_of = args_v\<rparr>
                                     in case launchers w lt of
                                          None \<Rightarrow>
                                            (Inl (Error (''Unsupported launch type ''
                                                    @ [CHR 0x27]
                                                    @ (case launchType c of None \<Rightarrow> ''undefined''
                                                       | Some t \<Rightarrow> t)
                                                    @ [CHR 0x27]) None), s3)
                                        | Some launcher \<Rightarrow>
                                            (case runPrepare w lt lo (rewrittenManifest m ma ma') s3 of
                                               (Inl e, s4) \<Rightarrow> (Inl e, s4)
                                             | (Inr u, s4) \<Rightarrow>
                                                 (Inr (Some (c, lt, launcher, lo)), s4)))))))))"

text \<open>Lines 144 to 338.\<close>

definition doStart :: "world \<Rightarrow> start_task_opts \<Rightarrow> state \<Rightarrow> (exn + unit) \<times> state" where
  "doStart w ops s =
     (case beforeLaunch w ops s of
        (Inl e, s4) \<Rightarrow> (Inl e, s4)
      | (Inr None, s4) \<Rightarrow> (Inr (), s4)
      | (Inr (Some (c, lt, launcher, lo)), s4) \<Rightarrow> runLauncher w ops c lt launcher lo s4)"



subsection \<open>Reading the trace\<close>

text \<open>The events that a call added to the trace.\<close>

definition events_of :: "state \<Rightarrow> state \<Rightarrow> event list" where
  "events_of s s' = drop (length (trace s)) (trace s')"

definition is_StartTask :: "event \<Rightarrow> bool" where
  "is_StartTask e = (case e of StartTask t \<Rightarrow> True | _ \<Rightarrow> False)"

definition is_PromisedModal :: "event \<Rightarrow> bool" where
  "is_PromisedModal e = (case e of PromisedModal m \<Rightarrow> True | _ \<Rightarrow> False)"

definition is_manifest_read :: "event \<Rightarrow> bool" where
  "is_manifest_read e = (case e of SfExists p \<Rightarrow> True | SfReadFile p \<Rightarrow> True | _ \<Rightarrow> False)"

definition is_strategy :: "event \<Rightarrow> bool" where
  "is_strategy e = (case e of Prepare lt lo m \<Rightarrow> True | Launcher lt lo \<Rightarrow> True | _ \<Rightarrow> False)"

definition is_SubkeyRequest :: "event \<Rightarrow> bool" where
  "is_SubkeyRequest e = (case e of SubkeyRequest k i sc \<Rightarrow> True | _ \<Rightarrow> False)"

definition is_OpenModal :: "event \<Rightarrow> bool" where
  "is_OpenModal e = (case e of OpenModal t d \<Rightarrow> True | _ \<Rightarrow> False)"

definition is_ClearInterval :: "event \<Rightarrow> bool" where
  "is_ClearInterval e = (case e of ClearInterval \<Rightarrow> True | _ \<Rightarrow> False)"

definition is_PowerSaveStart :: "event \<Rightarrow> bool" where
  "is_PowerSaveStart e = (case e of PowerSaveStart i \<Rightarrow> True | _ \<Rightarrow> False)"

definition is_PowerSaveStop :: "event \<Rightarrow> bool" where
  "is_PowerSaveStop e = (case e of PowerSaveStop i \<Rightarrow> True | _ \<Rightarrow> False)"

text \<open>The events of the lines before the launch strategy starts.\<close>

definition is_before_launch :: "event \<Rightarrow> bool" where
  "is_before_launch e =
     (case e of
        SaveEntity i f \<Rightarrow> True
      | ExplorerOpen p \<Rightarrow> True
      | StartTask t \<Rightarrow> True
      | SfExists p \<Rightarrow> True
      | SfReadFile p \<Rightarrow> True
      | PromisedModal m \<Rightarrow> True
      | SubkeyRequest k i sc \<Rightarrow> True
      | Prepare lt lo m \<Rightarrow> True
      | _ \<Rightarrow> False)"

text \<open>The events of the launch itself: the strategy, the timer and the lock.\<close>

definition is_lifecycle :: "event \<Rightarrow> bool" where
  "is_lifecycle e =
     (case e of
        Launcher lt lo \<Rightarrow> True
      | SetInterval \<Rightarrow> True
      | ClearInterval \<Rightarrow> True
      | PowerSaveStart i \<Rightarrow> True
      | PowerSaveStop i \<Rightarrow> True
      | _ \<Rightarrow> False)"

text \<open>The events of the lines before the launch, the configure task apart.\<close>

definition not_StartTask :: "event \<Rightarrow> bool" where
  "not_StartTask e = (is_before_launch e \<and> \<not> is_StartTask e)"

text \<open>An event that is neither a strategy nor a request to the API client.\<close>

definition quiet :: "event \<Rightarrow> bool" where
  "quiet e = (\<not> is_strategy e \<and> \<not> is_SubkeyRequest e)"

text \<open>A write of the playtime tick: both fields, for the given cave.\<close>

definition is_playtime_write :: "string \<Rightarrow> event \<Rightarrow> bool" where
  "is_playtime_write i e =
     (case e of
        SaveEntity j f \<Rightarrow> j = i \<and> set_secondsRun f \<noteq> None \<and> set_lastTouched f \<noteq> None
      | _ \<Rightarrow> False)"

text \<open>
  \<open>extends P s s'\<close>: the state \<open>s'\<close> comes from \<open>s\<close> by adding events that all
  satisfy \<open>P\<close>, with the timer as it was.
\<close>

definition extends :: "(event \<Rightarrow> bool) \<Rightarrow> state \<Rightarrow> state \<Rightarrow> bool" where
  "extends P s s' \<longleftrightarrow>
     (interval s' = interval s \<and> take (length (trace s)) (trace s') = trace s
      \<and> length (trace s) \<le> length (trace s') \<and> list_all P (events_of s s'))"

subsection \<open>The classifier as the specification words it\<close>

text \<open>
  The rules of the specification, in its words: the third rule asks for a path that
  begins with \<^verbatim>\<open>http://\<close> or \<^verbatim>\<open>https://\<close>, and no error is raised: a path that the
  probe does not report as an executable is shell.
\<close>

definition launchType_as_claimed :: "world \<Rightarrow> string \<Rightarrow> string \<Rightarrow> exn + string" where
  "launchType_as_claimed w appPath_v actionPath =
     (if re_native_ext actionPath then Inr ''native''
      else if re_html_ext actionPath then Inr ''html''
      else if prefix ''http://'' actionPath \<or> prefix ''https://'' actionPath then Inr ''external''
      else
        (case fnout_path w (ospath_join w appPath_v actionPath) of
           Inr (Some sniffRes) \<Rightarrow>
             (if (linuxExecutable sniffRes \<and> itchPlatform w = ''linux'')
                 \<or> (macExecutable sniffRes \<and> itchPlatform w = ''osx'')
              then Inr ''native''
              else Inr ''shell'')
         | _ \<Rightarrow> Inr ''shell''))"

section \<open>Concrete inputs\<close>

text \<open>
  A Linux machine, a game installed under \<^verbatim>\<open>/games/g\<close> without a manifest, strategies
  that return normally, a probe that recognises nothing.
\<close>

definition world0 :: world where
  "world0 =
     \<lparr>gameLazily = Inr \<lparr>game_id = 7, title = ''Game'', coverUrl = None, stillCoverUrl = None\<rparr>,
      actionForGame = (\<lambda>g c. ''launch''),
      startTask = (\<lambda>t cs. Inr cs),
      appPath = (\<lambda>c. ''/games/g''),
      ospath_join = (\<lambda>a b. a @ ''/'' @ b),
      sf_exists = (\<lambda>p. False),
      readManifest = (\<lambda>p. Inl (Error ''ENOENT'' None)),
      defaultManifestIcons = Map.empty,
      promisedModal = (\<lambda>m. ModalClosed),
      itchPlatform = ''linux'',
      fnout_path = (\<lambda>p. Inr (Some \<lparr>linuxExecutable = False, macExecutable = False\<rparr>)),
      object_prototype = Map.empty,
      api_subkey = (\<lambda>k g sc. Inr \<lparr>subkey_key = ''sub'', expiresAt = ''2030''\<rparr>),
      nativePrepare = (\<lambda>lo m. None),
      nativeLaunch = (\<lambda>lo. None),
      htmlLaunch = (\<lambda>lo. None),
      shellLaunch = (\<lambda>lo. None),
      externalLaunch = (\<lambda>lo. None),
      timerFirings = [],
      powerSaveBlocker_start = 1,
      now_open = 0,
      now_startedAt = 1000,
      now_caught = 1500,
      now_finally = 1600,
      gameLazily_again = Inr \<lparr>game_id = 7, title = ''Game'', coverUrl = None, stillCoverUrl = None\<rparr>,
      diego_hire = None,
      t_format = join_comma,
      String_of = (\<lambda>e. ''Error'')\<rparr>"

definition cave0 :: cave_record where
  "cave0 =
     \<lparr>cave_id = ''c1'', gameId = 7, game = None, launchType = Some ''native'',
      executables = Some [''run''], gamePath = None, secondsRun = None, lastTouched = None,
      uploadId = ''u1'', uploads = [''u1'' \<mapsto> ''upload-1'']\<rparr>"

definition state0 :: state where
  "state0 = \<lparr>caves = [''c1'' \<mapsto> cave0], interval = False, trace = []\<rparr>"

definition ops0 :: start_task_opts where
  "ops0 = \<lparr>cave = cave0, preferences = \<lparr>preventDisplaySleep = True\<rparr>,
           credentials = \<lparr>key = ''k''\<rparr>\<rparr>"

text \<open>The options that the launch strategy gets when there is no manifest.\<close>

definition lo0 :: launch_opts where
  "lo0 = \<lparr>opts = ops0, manifestAction = None, env = Map.empty, args_of = []\<rparr>"

text \<open>The native strategy crashes, 0.5 seconds or 2.1 seconds after the launch began.\<close>

definition world_crash_early :: world where
  "world_crash_early = world0\<lparr>nativeLaunch := (\<lambda>lo. Some (Crash ''exit code 1''))\<rparr>"

definition world_crash_late :: world where
  "world_crash_late =
     world0\<lparr>nativeLaunch := (\<lambda>lo. Some (Crash ''exit code 1'')), now_caught := 3100\<rparr>"

text \<open>A native cave without executables, and a configure task that changes nothing.\<close>

definition cave_broken :: cave_record where
  "cave_broken = cave0\<lparr>executables := Some []\<rparr>"

definition ops_broken :: start_task_opts where
  "ops_broken = ops0\<lparr>cave := cave_broken\<rparr>"

definition state_broken :: state where
  "state_broken = \<lparr>caves = [''c1'' \<mapsto> cave_broken], interval = False, trace = []\<rparr>"

definition task_broken :: configure_task where
  "task_broken = \<lparr>task_gameId = 7, task_cave = cave_broken, task_upload = Some ''upload-1''\<rparr>"

text \<open>Manifests with one action, which asks for a scope, and with two actions.\<close>

definition action_play :: manifest_action where
  "action_play =
     \<lparr>name = Some ''play'', path = Some ''game{{EXT}}'', icon = None,
      args = Some [''--fullscreen''], scope = Some ''profile:me''\<rparr>"

definition action_manual :: manifest_action where
  "action_manual =
     \<lparr>name = Some ''manual'', path = Some ''manual.html'', icon = None, args = None,
      scope = None\<rparr>"

definition manifest_single :: manifest where
  "manifest_single = \<lparr>actions = Some [action_play]\<rparr>"

definition manifest_two :: manifest where
  "manifest_two = \<lparr>actions = Some [action_play, action_manual]\<rparr>"

definition world_single :: world where
  "world_single = world0\<lparr>sf_exists := (\<lambda>p. True), readManifest := (\<lambda>p. Inr manifest_single)\<rparr>"

definition world_two :: world where
  "world_two = world0\<lparr>sf_exists := (\<lambda>p. True), readManifest := (\<lambda>p. Inr manifest_two)\<rparr>"

text \<open>The user picks the action \<^verbatim>\<open>play\<close> in the modal of the two actions.\<close>

definition world_pick :: world where
  "world_pick = world_two\<lparr>promisedModal := (\<lambda>ms. ModalResponse ''play'')\<rparr>"

definition game0 :: game_record where
  "game0 = \<lparr>game_id = 7, title = ''Game'', coverUrl = None, stillCoverUrl = None\<rparr>"

text \<open>The prepare step of the native strategy throws.\<close>

definition world_prepare_throws :: world where
  "world_prepare_throws = world0\<lparr>nativePrepare := (\<lambda>lo m. Some (Error ''EACCES'' None))\<rparr>"

text \<open>The probe answers null.\<close>

definition world_probe_null :: world where
  "world_probe_null = world0\<lparr>fnout_path := (\<lambda>p. Inr None)\<rparr>"



text \<open>The native strategy is cancelled.\<close>

definition world_cancelled :: world where
  "world_cancelled = world0\<lparr>nativeLaunch := (\<lambda>lo. Some Cancelled)\<rparr>"

section \<open>Properties\<close>

subsection \<open>Strings\<close>

lemmas re_defs =
  re_native_ext_def re_html_ext_def re_http_def endsWith_ci_def startsWith_ci_def
  toLowerAscii_def

lemma endsWith_ci_iff:
  "endsWith_ci ext p \<longleftrightarrow> (\<exists>stem e. p = stem @ e \<and> map toLowerAscii e = ext)"
  unfolding endsWith_ci_def suffix_def
  by (metis append_eq_map_conv map_append)

lemma startsWith_ci_iff:
  "startsWith_ci pre p \<longleftrightarrow> (\<exists>h rest. p = h @ rest \<and> map toLowerAscii h = pre)"
  unfolding startsWith_ci_def prefix_def
  by (metis append_eq_map_conv map_append)

subsection \<open>The launch-type classifier\<close>

lemma launchers_own_keys:
  "lt \<in> {''native'', ''html'', ''external'', ''shell''} \<Longrightarrow> launchers w lt \<noteq> None"
  by (auto simp: launchers_def)

lemma launchTypeForAction_own_key:
  "launchTypeForAction w a p = Inr lt \<Longrightarrow> lt \<in> {''native'', ''html'', ''external'', ''shell''}"
  by (auto simp: launchTypeForAction_def Let_def split: if_splits sum.splits option.splits)

text \<open>
  Claim C5, as the code has it. The rules are tried in order and the first match wins:
  a path that ends, in any letter case, with \<^verbatim>\<open>.app\<close>, \<^verbatim>\<open>.exe\<close>, \<^verbatim>\<open>.bat\<close> or \<^verbatim>\<open>.sh\<close>
  is native; else one that ends with \<^verbatim>\<open>.htm\<close> or \<^verbatim>\<open>.html\<close> is html; else one that
  begins, in any letter case, with \<^verbatim>\<open>http:\<close> or \<^verbatim>\<open>https:\<close> (the two slashes are not
  asked for) is external; else, when the probe answers with a result, a Linux executable on
  Linux or a macOS executable on macOS is native and every other path is shell. In all
  these cases no error is raised. An answer is always one of the four types that the
  launcher table defines, so that no classified path ends in the unsupported-type error.
\<close>

theorem launchTypeForAction_rules:
  "(if \<exists>stem e. p = stem @ e \<and> map toLowerAscii e \<in> {''.app'', ''.exe'', ''.bat'', ''.sh''}
      then launchTypeForAction w a p = Inr ''native''
    else if \<exists>stem e. p = stem @ e \<and> map toLowerAscii e \<in> {''.htm'', ''.html''}
      then launchTypeForAction w a p = Inr ''html''
    else if \<exists>h rest. p = h @ rest \<and> map toLowerAscii h \<in> {''http:'', ''https:''}
      then launchTypeForAction w a p = Inr ''external''
    else
      (case fnout_path w (ospath_join w a p) of
         Inr (Some sniffRes) \<Rightarrow>
           launchTypeForAction w a p =
             Inr (if (linuxExecutable sniffRes \<and> itchPlatform w = ''linux'')
                     \<or> (macExecutable sniffRes \<and> itchPlatform w = ''osx'')
                  then ''native'' else ''shell'')
       | _ \<Rightarrow> True))
   \<and> (\<forall>lt. launchTypeForAction w a p = Inr lt \<longrightarrow>
          lt \<in> {''native'', ''html'', ''external'', ''shell''} \<and> launchers w lt \<noteq> None)"
proof -
  have n: "re_native_ext p \<longleftrightarrow>
      (\<exists>stem e. p = stem @ e \<and> map toLowerAscii e \<in> {''.app'', ''.exe'', ''.bat'', ''.sh''})"
    by (simp only: re_native_ext_def endsWith_ci_iff insert_iff empty_iff ex_disj_distrib
        conj_disj_distribL simp_thms)
  have h: "re_html_ext p \<longleftrightarrow>
      (\<exists>stem e. p = stem @ e \<and> map toLowerAscii e \<in> {''.htm'', ''.html''})"
    by (simp only: re_html_ext_def endsWith_ci_iff insert_iff empty_iff ex_disj_distrib
        conj_disj_distribL simp_thms)
  have u: "re_http p \<longleftrightarrow>
      (\<exists>h rest. p = h @ rest \<and> map toLowerAscii h \<in> {''http:'', ''https:''})"
    by (simp only: re_http_def startsWith_ci_iff insert_iff empty_iff ex_disj_distrib
        conj_disj_distribL simp_thms)
  have t: "\<forall>lt. launchTypeForAction w a p = Inr lt \<longrightarrow>
          lt \<in> {''native'', ''html'', ''external'', ''shell''} \<and> launchers w lt \<noteq> None"
    using launchTypeForAction_own_key launchers_own_keys by blast
  have r: "if re_native_ext p then launchTypeForAction w a p = Inr ''native''
    else if re_html_ext p then launchTypeForAction w a p = Inr ''html''
    else if re_http p then launchTypeForAction w a p = Inr ''external''
    else
      (case fnout_path w (ospath_join w a p) of
         Inr (Some sniffRes) \<Rightarrow>
           launchTypeForAction w a p =
             Inr (if (linuxExecutable sniffRes \<and> itchPlatform w = ''linux'')
                     \<or> (macExecutable sniffRes \<and> itchPlatform w = ''osx'')
                  then ''native'' else ''shell'')
       | _ \<Rightarrow> True)"
    by (simp add: launchTypeForAction_def Let_def split: sum.splits option.splits)
  from r t show ?thesis
    unfolding n h u by (rule conjI)
qed

text \<open>
  A use of C5: \<^verbatim>\<open>Run.EXE\<close> is native, \<^verbatim>\<open>index.html\<close> is html, \<^verbatim>\<open>https://example.com\<close>
  is external, and a file without extension in which the probe recognises nothing is shell.
\<close>

theorem launchTypeForAction_rules_witness:
  "launchTypeForAction world0 ''/games/g'' ''Run.EXE'' = Inr ''native''
   \<and> launchTypeForAction world0 ''/games/g'' ''index.html'' = Inr ''html''
   \<and> launchTypeForAction world0 ''/games/g'' ''https://example.com'' = Inr ''external''
   \<and> launchTypeForAction world0 ''/games/g'' ''play'' = Inr ''shell''
   \<and> launchers world0 ''shell'' \<noteq> None"
proof -
  have 1: "launchTypeForAction world0 ''/games/g'' ''Run.EXE'' = Inr ''native''"
    by (simp add: launchTypeForAction_def re_defs suffix_def)
  have 2: "launchTypeForAction world0 ''/games/g'' ''index.html'' = Inr ''html''"
    by (simp add: launchTypeForAction_def re_defs suffix_def)
  have 3: "launchTypeForAction world0 ''/games/g'' ''https://example.com'' = Inr ''external''"
    by (simp add: launchTypeForAction_def re_defs suffix_def)
  have 4: "launchTypeForAction world0 ''/games/g'' ''play'' = Inr ''shell''"
    by (simp add: launchTypeForAction_def re_defs suffix_def world0_def)
  from launchTypeForAction_rules [of "''play''" world0 "''/games/g''"] 4
  have 5: "launchers world0 ''shell'' \<noteq> None"
    by blast
  from 1 2 3 4 5 show ?thesis by blast
qed

text \<open>
  Against C5 as it is worded. The path \<^verbatim>\<open>http:foo\<close> does not begin with \<^verbatim>\<open>http://\<close> and
  the probe recognises nothing in it, so the wording makes it shell; the code makes it
  external. And when the probe answers null for a path without extension, the wording
  makes it shell without an error; the code throws.
\<close>

theorem launchTypeForAction_http_counterexample:
  "launchTypeForAction world0 ''/games/g'' ''http:foo'' = Inr ''external''
   \<and> launchType_as_claimed world0 ''/games/g'' ''http:foo'' = Inr ''shell''
   \<and> launchTypeForAction world_probe_null ''/games/g'' ''play''
       = Inl (TypeError ''Cannot read property linuxExecutable of null'')
   \<and> launchType_as_claimed world_probe_null ''/games/g'' ''play'' = Inr ''shell''"
  by (simp add: launchTypeForAction_def launchType_as_claimed_def re_defs world0_def
      world_probe_null_def suffix_def)

subsection \<open>The playtime tick\<close>









subsection \<open>Traces\<close>

lemmas run_defs =
  doStart_def beforeLaunch_def configureIfProblem_def caveProblem_def checkProblem_def
  resolveManifest_def applyManifestAction_def launchers_def prepares_def runPrepare_def
  runLauncher_def catchLaunch_def secondsRunning_def is_Crash_def is_Cancelled_def
  rewrittenManifest_def emit_def saveEntity_def upsert_def events_of_def Let_def

lemmas input_defs =
  world0_def ops0_def cave0_def state0_def lo0_def world_crash_early_def world_crash_late_def
  world_cancelled_def cave_broken_def ops_broken_def state_broken_def task_broken_def
  action_play_def action_manual_def manifest_single_def manifest_two_def world_single_def
  world_two_def game0_def world_prepare_throws_def world_probe_null_def
  world_pick_def

lemmas manifest_defs =
  validateManifest_def truthy_def launchTypeForAction_def appExt_def re_defs suffix_def
  findWhere_name_def


lemma extends_iff: "extends P s s' \<longleftrightarrow> (interval s' = interval s \<and> (\<exists>es. trace s' = trace s @ es \<and> list_all P es))"
  unfolding extends_def events_of_def
  by (metis append_eq_conv_conj append_take_drop_id length_append le_add1)

lemma extends_refl: "extends P s s"
  by (simp add: extends_iff)

lemma extends_trans: "extends P s s1 \<Longrightarrow> extends P s1 s2 \<Longrightarrow> extends P s s2"
  by (auto simp: extends_iff)

lemma extends_emit: "P e \<Longrightarrow> extends P s (emit e s)"
  by (simp add: extends_iff emit_def)

lemma extends_saveEntity: "P (SaveEntity i f) \<Longrightarrow> extends P s (saveEntity i f s)"
  by (simp add: extends_iff saveEntity_def)

lemma extends_caves: "extends P s s' \<Longrightarrow> extends P s (s'\<lparr>caves := cs\<rparr>)"
  by (simp add: extends_iff)

lemma extends_mono: "extends P s s' \<Longrightarrow> (\<And>e. P e \<Longrightarrow> Q e) \<Longrightarrow> extends Q s s'"
  by (auto simp: extends_iff list_all_iff)

lemma events_of_append: "trace s' = trace s @ es \<Longrightarrow> events_of s s' = es"
  by (simp add: events_of_def)


lemma configureIfProblem_none:
  "caveProblem c = None \<Longrightarrow> configureIfProblem w g c s = (Inr (Some c), s)"
  by (simp add: configureIfProblem_def)

lemma configureIfProblem_some:
  "caveProblem c = Some p \<Longrightarrow>
   configureIfProblem w g c s =
     (let task = \<lparr>task_gameId = game_id g, task_cave = c, task_upload = uploads c (uploadId c)\<rparr>
      in case startTask w task (caves s) of
           Inl e \<Rightarrow> (Inl e, emit (StartTask task) s)
         | Inr cs \<Rightarrow> (Inr (cs (cave_id c)), (emit (StartTask task) s)\<lparr>caves := cs\<rparr>))"
  by (simp add: configureIfProblem_def Let_def emit_def split: sum.splits)

lemma configureIfProblem_extends:
  assumes "configureIfProblem w g c s = (r, s1)" and "\<And>t. P (StartTask t)"
  shows "extends P s s1"
proof (cases "caveProblem c")
  case None
  with assms show ?thesis by (simp add: configureIfProblem_none extends_refl)
next
  case (Some p)
  with assms show ?thesis
    by (auto simp: configureIfProblem_some Let_def extends_iff emit_def split: sum.splits)
qed

lemma resolveManifest_extends:
  assumes "resolveManifest w g a s = (r, s2)"
    and "\<And>p. P (SfExists p)" and "\<And>p. P (SfReadFile p)" and "\<And>m. P (PromisedModal m)"
  shows "extends P s s2 \<and> caves s2 = caves s"
  using assms
  by (auto simp: resolveManifest_def Let_def extends_iff emit_def
      split: if_splits sum.splits option.splits modal_response.splits)

lemma applyManifestAction_extends:
  assumes "applyManifestAction w ops g a lt0 ma s = (r, s3)"
    and "\<And>k i sc. P (SubkeyRequest k i sc)"
  shows "extends P s s3 \<and> caves s3 = caves s"
  using assms
  by (auto simp: applyManifestAction_def Let_def extends_iff emit_def
      split: if_splits sum.splits option.splits)

lemma runPrepare_extends:
  assumes "runPrepare w lt lo m s = (r, s4)"
    and "P (Prepare lt lo m)"
  shows "extends P s s4 \<and> caves s4 = caves s"
  using assms
  by (auto simp: runPrepare_def Let_def extends_iff emit_def
      split: if_splits sum.splits option.splits)


lemma beforeLaunch_extends:
  assumes "beforeLaunch w ops s = (r, s4)"
  shows "extends is_before_launch s s4"
proof -
  let ?P = is_before_launch
  have c: "\<And>g c s r s1. configureIfProblem w g c s = (r, s1) \<Longrightarrow> extends ?P s s1"
    by (rule configureIfProblem_extends) (simp_all add: is_before_launch_def)
  have m: "\<And>g a s r s1. resolveManifest w g a s = (r, s1) \<Longrightarrow> extends ?P s s1"
    using resolveManifest_extends [where P = ?P] by (simp add: is_before_launch_def)
  have a: "\<And>g a lt0 ma s r s1. applyManifestAction w ops g a lt0 ma s = (r, s1) \<Longrightarrow> extends ?P s s1"
    using applyManifestAction_extends [where P = ?P] by (simp add: is_before_launch_def)
  have p: "\<And>lt lo m s r s1. runPrepare w lt lo m s = (r, s1) \<Longrightarrow> extends ?P s s1"
    using runPrepare_extends [where P = ?P] by (simp add: is_before_launch_def)
  have o: "\<And>i f x s. extends ?P s (emit (ExplorerOpen x) (saveEntity i f s))"
    by (simp add: extends_iff emit_def saveEntity_def is_before_launch_def)
  show ?thesis
    using assms unfolding beforeLaunch_def Let_def
    by (auto split: sum.splits if_splits prod.splits option.splits resolution.splits
        simp: extends_refl o dest!: c m a p intro: extends_trans)
qed

subsection \<open>The launch strategy, the timer and the lock\<close>

lemma playtimeTick_extends:
  "playtimeTick i t s = Inr s' \<Longrightarrow> extends (is_playtime_write i) s s' "
  by (auto simp: playtimeTick_def getEntity_def Let_def saveEntity_def extends_iff is_playtime_write_def
      split: option.splits)

lemma fire_extends: "extends (is_playtime_write i) s (fire i ts s)"
proof (induction ts arbitrary: s)
  case Nil
  show ?case by (simp add: extends_refl)
next
  case (Cons t ts)
  show ?case
  proof (cases "interval s")
    case False
    then show ?thesis using Cons [of s] by simp
  next
    case True
    show ?thesis
    proof (cases "playtimeTick i t s")
      case (Inl e)
      then show ?thesis using True Cons [of s] by simp
    next
      case (Inr s1)
      then have "extends (is_playtime_write i) s s1" by (rule playtimeTick_extends)
      moreover have "fire i (t # ts) s = fire i ts s1" using True Inr by simp
      ultimately show ?thesis using Cons [of s1] by (auto intro: extends_trans)
    qed
  qed
qed

lemma runLauncher_result:
  "fst (runLauncher w ops c lt l lo s) =
     (case l lo of None \<Rightarrow> Inr () | Some e \<Rightarrow> catchLaunch w (now_startedAt w) e)"
  by (simp add: runLauncher_def Let_def)

lemma trace_emit [simp]: "trace (emit e s) = trace s @ [e]"
  and interval_emit [simp]: "interval (emit e s) = interval s"
  and caves_emit [simp]: "caves (emit e s) = caves s"
  by (simp_all add: emit_def)

lemma trace_saveEntity [simp]: "trace (saveEntity i f s) = trace s @ [SaveEntity i f]"
  and interval_saveEntity [simp]: "interval (saveEntity i f s) = interval s"
  by (simp_all add: saveEntity_def)

lemma caves_saveEntity_touch:
  "\<exists>c'. caves (saveEntity i \<lparr>set_secondsRun = None, set_lastTouched = Some t\<rparr> s) i = Some c'
      \<and> lastTouched c' = Some t"
  by (simp add: saveEntity_def upsert_def)

lemma fire_trace:
  "\<exists>ticks. trace (fire i ts s) = trace s @ ticks \<and> list_all (is_playtime_write i) ticks"
  using fire_extends [of i s ts] by (auto simp: extends_iff)

lemma runLauncher_events:
  assumes "runLauncher w ops c lt l lo s = (r, s')"
  shows "\<exists>ticks. trace s' = trace s @
           [SaveEntity (cave_id c) \<lparr>set_secondsRun = None, set_lastTouched = Some (now_startedAt w)\<rparr>,
            SetInterval]
           @ (if preventDisplaySleep (preferences ops)
              then [PowerSaveStart (powerSaveBlocker_start w)] else [])
           @ [Launcher lt lo] @ ticks @ [ClearInterval]
           @ (if preventDisplaySleep (preferences ops)
              then [PowerSaveStop (Some (powerSaveBlocker_start w))] else [])
           @ [SaveEntity (cave_id c) \<lparr>set_secondsRun = None, set_lastTouched = Some (now_finally w)\<rparr>]
         \<and> list_all (is_playtime_write (cave_id c)) ticks"
proof (cases "preventDisplaySleep (preferences ops)")
  case True
  define s3 where "s3 = emit (Launcher lt lo) (emit (PowerSaveStart (powerSaveBlocker_start w))
             (emit SetInterval ((saveEntity (cave_id c)
                \<lparr>set_secondsRun = None, set_lastTouched = Some (now_startedAt w)\<rparr> s)\<lparr>interval := True\<rparr>)))"
  obtain ticks where t: "trace (fire (cave_id c) (timerFirings w) s3) = trace s3 @ ticks"
      "list_all (is_playtime_write (cave_id c)) ticks"
    using fire_trace by blast
  have "trace s' = trace (fire (cave_id c) (timerFirings w) s3) @ [ClearInterval,
            PowerSaveStop (Some (powerSaveBlocker_start w)),
            SaveEntity (cave_id c) \<lparr>set_secondsRun = None, set_lastTouched = Some (now_finally w)\<rparr>]"
    using assms True by (auto simp: runLauncher_def Let_def s3_def)
  moreover have "trace s3 = trace s @
           [SaveEntity (cave_id c) \<lparr>set_secondsRun = None, set_lastTouched = Some (now_startedAt w)\<rparr>,
            SetInterval, PowerSaveStart (powerSaveBlocker_start w), Launcher lt lo]"
    by (simp add: s3_def)
  ultimately show ?thesis using t True by simp
next
  case False
  define s3 where "s3 = emit (Launcher lt lo)
             (emit SetInterval ((saveEntity (cave_id c)
                \<lparr>set_secondsRun = None, set_lastTouched = Some (now_startedAt w)\<rparr> s)\<lparr>interval := True\<rparr>))"
  obtain ticks where t: "trace (fire (cave_id c) (timerFirings w) s3) = trace s3 @ ticks"
      "list_all (is_playtime_write (cave_id c)) ticks"
    using fire_trace by blast
  have "trace s' = trace (fire (cave_id c) (timerFirings w) s3) @ [ClearInterval,
            SaveEntity (cave_id c) \<lparr>set_secondsRun = None, set_lastTouched = Some (now_finally w)\<rparr>]"
    using assms False by (auto simp: runLauncher_def Let_def s3_def)
  moreover have "trace s3 = trace s @
           [SaveEntity (cave_id c) \<lparr>set_secondsRun = None, set_lastTouched = Some (now_startedAt w)\<rparr>,
            SetInterval, Launcher lt lo]"
    by (simp add: s3_def)
  ultimately show ?thesis using t False by simp
qed

lemma runLauncher_final:
  assumes "runLauncher w ops c lt l lo s = (r, s')"
  shows "\<not> interval s' \<and> (\<exists>c'. caves s' (cave_id c) = Some c' \<and> lastTouched c' = Some (now_finally w))"
proof -
  have "\<exists>s6. s' = saveEntity (cave_id c)
          \<lparr>set_secondsRun = None, set_lastTouched = Some (now_finally w)\<rparr> s6 \<and> \<not> interval s6"
    using assms by (cases "preventDisplaySleep (preferences ops)") (auto simp: runLauncher_def Let_def)
  then obtain s6 where s6: "s' = saveEntity (cave_id c)
          \<lparr>set_secondsRun = None, set_lastTouched = Some (now_finally w)\<rparr> s6" "\<not> interval s6"
    by blast
  from s6 have "\<not> interval s'" by simp
  moreover from s6(1) caves_saveEntity_touch [of "cave_id c" "now_finally w" s6]
  have "\<exists>c'. caves s' (cave_id c) = Some c' \<and> lastTouched c' = Some (now_finally w)" by simp
  ultimately show ?thesis by blast
qed

lemma doStart_cases:
  assumes "doStart w ops s = (r, s')"
  shows "(\<exists>x. beforeLaunch w ops s = (x, s') \<and> (x = Inr None \<or> (\<exists>e. x = Inl e)))
       \<or> (\<exists>c lt l lo s4. beforeLaunch w ops s = (Inr (Some (c, lt, l, lo)), s4)
             \<and> runLauncher w ops c lt l lo s4 = (r, s'))"
  using assms by (auto simp: doStart_def split: prod.splits sum.splits option.splits)

subsection \<open>Calls that reach the launch strategy\<close>

lemma beforeLaunch_dispatch:
  assumes "beforeLaunch w ops s = (Inr (Some (c, lt, l, lo)), s4)"
  shows "launchers w lt = Some l \<and> opts lo = ops"
  using assms unfolding beforeLaunch_def Let_def
  by (auto split: sum.splits if_splits prod.splits option.splits resolution.splits)

lemma lifecycle_filters:
  assumes "list_all is_before_launch es"
  shows "filter is_ClearInterval es = []" and "filter is_PowerSaveStart es = []"
    and "filter is_PowerSaveStop es = []" and "\<And>lt lo. Launcher lt lo \<notin> set es"
    and "\<And>x. PowerSaveStop x \<notin> set es" and "filter is_OpenModal es = []"
  using assms
  by (auto simp: filter_empty_conv list_all_iff is_before_launch_def is_ClearInterval_def
      is_PowerSaveStart_def is_PowerSaveStop_def is_OpenModal_def split: event.splits)

lemma playtime_filters:
  assumes "list_all (is_playtime_write i) es"
  shows "filter is_ClearInterval es = []" and "filter is_PowerSaveStart es = []"
    and "filter is_PowerSaveStop es = []" and "\<And>lt lo. Launcher lt lo \<notin> set es"
    and "\<And>x. PowerSaveStop x \<notin> set es" and "filter is_OpenModal es = []"
  using assms
  by (auto simp: filter_empty_conv list_all_iff is_playtime_write_def is_ClearInterval_def
      is_PowerSaveStart_def is_PowerSaveStop_def is_OpenModal_def split: event.splits)

text \<open>What a call that reaches the launch strategy has done.\<close>

lemma doStart_launch:
  assumes "doStart w ops s = (r, s')" and "Launcher lt lo \<in> set (events_of s s')"
  shows "\<exists>c l s4 before ticks.
      beforeLaunch w ops s = (Inr (Some (c, lt, l, lo)), s4)
    \<and> runLauncher w ops c lt l lo s4 = (r, s')
    \<and> launchers w lt = Some l \<and> opts lo = ops
    \<and> list_all is_before_launch before
    \<and> list_all (is_playtime_write (cave_id c)) ticks
    \<and> trace s4 = trace s @ before
    \<and> events_of s s' = before @
           [SaveEntity (cave_id c) \<lparr>set_secondsRun = None, set_lastTouched = Some (now_startedAt w)\<rparr>,
            SetInterval]
           @ (if preventDisplaySleep (preferences ops)
              then [PowerSaveStart (powerSaveBlocker_start w)] else [])
           @ [Launcher lt lo] @ ticks @ [ClearInterval]
           @ (if preventDisplaySleep (preferences ops)
              then [PowerSaveStop (Some (powerSaveBlocker_start w))] else [])
           @ [SaveEntity (cave_id c) \<lparr>set_secondsRun = None, set_lastTouched = Some (now_finally w)\<rparr>]"
proof -
  consider (early) x where "beforeLaunch w ops s = (x, s')"
    | (launch) c lt' l lo' s4 where "beforeLaunch w ops s = (Inr (Some (c, lt', l, lo')), s4)"
        "runLauncher w ops c lt' l lo' s4 = (r, s')"
    using doStart_cases [OF assms(1)] by blast
  then show ?thesis
  proof cases
    case early
    then have b: "beforeLaunch w ops s = (x, s')" .
    from beforeLaunch_extends [OF b] obtain es where
      "trace s' = trace s @ es" "list_all is_before_launch es"
      by (auto simp: extends_iff)
    then have "Launcher lt lo \<notin> set (events_of s s')"
      using lifecycle_filters(4) [of es] by (simp add: events_of_def)
    with assms(2) show ?thesis by simp
  next
    case launch
    then have b: "beforeLaunch w ops s = (Inr (Some (c, lt', l, lo')), s4)"
      and r: "runLauncher w ops c lt' l lo' s4 = (r, s')" by simp_all
    from beforeLaunch_extends [OF b] obtain before where
      before: "trace s4 = trace s @ before" "list_all is_before_launch before"
      by (auto simp: extends_iff)
    from runLauncher_events [OF r] obtain ticks where
      ticks: "trace s' = trace s4 @
           [SaveEntity (cave_id c) \<lparr>set_secondsRun = None, set_lastTouched = Some (now_startedAt w)\<rparr>,
            SetInterval]
           @ (if preventDisplaySleep (preferences ops)
              then [PowerSaveStart (powerSaveBlocker_start w)] else [])
           @ [Launcher lt' lo'] @ ticks @ [ClearInterval]
           @ (if preventDisplaySleep (preferences ops)
              then [PowerSaveStop (Some (powerSaveBlocker_start w))] else [])
           @ [SaveEntity (cave_id c) \<lparr>set_secondsRun = None, set_lastTouched = Some (now_finally w)\<rparr>]"
       "list_all (is_playtime_write (cave_id c)) ticks"
      by blast
    have ev: "events_of s s' = before @
           [SaveEntity (cave_id c) \<lparr>set_secondsRun = None, set_lastTouched = Some (now_startedAt w)\<rparr>,
            SetInterval]
           @ (if preventDisplaySleep (preferences ops)
              then [PowerSaveStart (powerSaveBlocker_start w)] else [])
           @ [Launcher lt' lo'] @ ticks @ [ClearInterval]
           @ (if preventDisplaySleep (preferences ops)
              then [PowerSaveStop (Some (powerSaveBlocker_start w))] else [])
           @ [SaveEntity (cave_id c) \<lparr>set_secondsRun = None, set_lastTouched = Some (now_finally w)\<rparr>]"
      using before(1) ticks(1) by (simp add: events_of_def)
    have "Launcher lt lo \<notin> set before" "Launcher lt lo \<notin> set ticks"
      using lifecycle_filters(4) [OF before(2)] playtime_filters(4) [OF ticks(2)] by blast+
    with assms(2) ev have same: "lt' = lt \<and> lo' = lo"
      by (auto split: if_splits)
    from beforeLaunch_dispatch [OF b] have "launchers w lt' = Some l \<and> opts lo' = ops" .
    with same b r before ticks(2) ev show ?thesis by blast
  qed
qed

subsection \<open>Crashes and cancellations\<close>

lemma catchLaunch_Crash:
  "catchLaunch w t0 (Crash m) = (if now_caught w - t0 > 2000 then Inr () else Inl (Crash m))"
  by (simp add: catchLaunch_def is_Crash_def is_Cancelled_def secondsRunning_def)



text \<open>A call that is ready to launch hands over to the launch strategy.\<close>

lemma doStart_dispatch:
  assumes "beforeLaunch w ops s = (Inr (Some (c, lt, l, lo)), s4)"
  shows "doStart w ops s = runLauncher w ops c lt l lo s4"
    and "fst (doStart w ops s) =
           (case l lo of None \<Rightarrow> Inr () | Some e \<Rightarrow> catchLaunch w (now_startedAt w) e)"
    and "Launcher lt lo \<in> set (events_of s (snd (doStart w ops s)))"
proof -
  show d: "doStart w ops s = runLauncher w ops c lt l lo s4"
    using assms by (simp add: doStart_def)
  show "fst (doStart w ops s) =
           (case l lo of None \<Rightarrow> Inr () | Some e \<Rightarrow> catchLaunch w (now_startedAt w) e)"
    unfolding d by (rule runLauncher_result)
  from beforeLaunch_extends [OF assms] obtain before where
    before: "trace s4 = trace s @ before" by (auto simp: extends_iff)
  have "runLauncher w ops c lt l lo s4
      = (fst (runLauncher w ops c lt l lo s4), snd (runLauncher w ops c lt l lo s4))" by simp
  from runLauncher_events [OF this] before
  show "Launcher lt lo \<in> set (events_of s (snd (doStart w ops s)))"
    unfolding d by (auto simp: events_of_def)
qed



text \<open>
  Against C3 as it is worded: the call is ready to launch, the native strategy crashes 0.5
  seconds after the launch began, and the call throws the crash instead of returning.
\<close>

theorem doStart_crash_half_second_counterexample:
  "fst (beforeLaunch world_crash_early ops0 state0)
      = Inr (Some (cave0, ''native'', nativeLaunch world_crash_early, lo0))
   \<and> nativeLaunch world_crash_early lo0 = Some (Crash ''exit code 1'')
   \<and> now_caught world_crash_early - now_startedAt world_crash_early = 500
   \<and> fst (doStart world_crash_early ops0 state0) = Inl (Crash ''exit code 1'')
   \<and> fst (doStart world_crash_early ops0 state0) \<noteq> Inr ()"
  by (simp add: run_defs input_defs)

text \<open>
  Claim C3, as the code has it: a crash that the launch strategy throws 0.5 seconds after
  the launch began is not ignored; the call throws it again.
\<close>

theorem doStart_crash_half_second:
  assumes "beforeLaunch w ops s = (Inr (Some (c, lt, l, lo)), s4)"
    and "l lo = Some (Crash m)"
    and "now_caught w - now_startedAt w = 500"
  shows "fst (doStart w ops s) = Inl (Crash m)
    \<and> Launcher lt lo \<in> set (events_of s (snd (doStart w ops s)))"
  using doStart_dispatch(2,3) [OF assms(1)] assms(2,3) by (simp add: catchLaunch_Crash)

text \<open>
  A use of C3 as amended.
\<close>

theorem doStart_crash_half_second_witness:
  "now_caught world_crash_early - now_startedAt world_crash_early = 500
   \<and> fst (doStart world_crash_early ops0 state0) = Inl (Crash ''exit code 1'')"
proof -
  have "fst (beforeLaunch world_crash_early ops0 state0)
      = Inr (Some (cave0, ''native'', nativeLaunch world_crash_early, lo0))"
    by (simp add: run_defs input_defs)
  then have b1: "beforeLaunch world_crash_early ops0 state0
      = (Inr (Some (cave0, ''native'', nativeLaunch world_crash_early, lo0)),
         snd (beforeLaunch world_crash_early ops0 state0))"
    by (simp add: prod_eq_iff)
  have b2: "nativeLaunch world_crash_early lo0 = Some (Crash ''exit code 1'')"
    by (simp add: input_defs)
  have b3: "now_caught world_crash_early - now_startedAt world_crash_early = 500"
    by (simp add: input_defs)
  from doStart_crash_half_second [OF b1 b2 b3] b3 show ?thesis by simp
qed





subsection \<open>The cleanup\<close>

lemma checkProblem_Some: "checkProblem co = Inr c \<Longrightarrow> co = Some c"
  by (auto simp: checkProblem_def split: option.splits)

lemma configureIfProblem_cave:
  assumes "configureIfProblem w g c0 s = (Inr co, s1)"
  shows "if caveProblem c0 = None then co = Some c0 else co = caves s1 (cave_id c0)"
proof (cases "caveProblem c0")
  case None
  with assms show ?thesis by (simp add: configureIfProblem_none)
next
  case (Some p)
  with assms show ?thesis
    by (auto simp: configureIfProblem_some Let_def split: sum.splits)
qed

text \<open>The cave of the launch is the cave of the call or, after the configure task, the
  cave that the store holds in its place.\<close>

lemma beforeLaunch_cave:
  assumes "beforeLaunch w ops s = (Inr (Some (c, lt, l, lo)), s4)"
  shows "if caveProblem (cave ops) = None then c = cave ops
         else caves s4 (cave_id (cave ops)) = Some c"
proof -
  have m: "\<And>g a s r s1. resolveManifest w g a s = (r, s1) \<Longrightarrow> caves s1 = caves s"
    using resolveManifest_extends [where P = "\<lambda>e. True"] by simp
  have a: "\<And>g a lt0 ma s r s1. applyManifestAction w ops g a lt0 ma s = (r, s1) \<Longrightarrow> caves s1 = caves s"
    using applyManifestAction_extends [where P = "\<lambda>e. True"] by simp
  have p: "\<And>lt lo m s r s1. runPrepare w lt lo m s = (r, s1) \<Longrightarrow> caves s1 = caves s"
    using runPrepare_extends [where P = "\<lambda>e. True"] by simp
  have c: "\<And>g c0 s co s1. configureIfProblem w g c0 s = (Inr co, s1) \<Longrightarrow>
      configureIfProblem w g c0 s = (Inr co, s1)
      \<and> (if caveProblem c0 = None then co = Some c0 else co = caves s1 (cave_id c0))"
    using configureIfProblem_cave by blast
  show ?thesis
    using assms unfolding beforeLaunch_def Let_def
    by (auto split: sum.splits if_splits prod.splits option.splits resolution.splits
        dest!: m a p checkProblem_Some dest: configureIfProblem_cave)
qed

text \<open>
  Against C1 as it is worded, where the dispatch is the prepare step and then the launch
  strategy: the prepare step of the native strategy throws. The call throws its error;
  no timer is cleared and \<^verbatim>\<open>lastTouched\<close> is not written.
\<close>

theorem doStart_cleanup_counterexample:
  "fst (doStart world_prepare_throws ops0 state0) = Inl (Error ''EACCES'' None)
   \<and> events_of state0 (snd (doStart world_prepare_throws ops0 state0))
       = [SfExists ''/games/g/.itch.toml'', Prepare ''native'' lo0 None]
   \<and> map_option lastTouched (caves (snd (doStart world_prepare_throws ops0 state0)) ''c1'')
       = Some None"
  by (simp add: run_defs input_defs)

text \<open>
  Claim C1, as the code has it. A call that is ready to launch (the prepare step, when
  there is one, has returned) calls the launch strategy and ends, whatever the strategy
  does, with the cleanup, once: after the launch and the ticks of the timer come one
  \<^verbatim>\<open>clearInterval\<close>, the release of the lock exactly when the preference
  \<^verbatim>\<open>preventDisplaySleep\<close> is set, and a last write of \<^verbatim>\<open>lastTouched\<close> for the cave of
  the launch. The lock is acquired exactly when the preference is set, the token that is
  released is the one that was acquired, and a null token is never released. The timer is
  off at the end. The cave of the launch is the cave of the call, or the one that the store
  holds in its place after the configure task.
\<close>

theorem doStart_cleanup:
  assumes "beforeLaunch w ops s = (Inr (Some (c, lt, l, lo)), s4)"
  shows "\<exists>ticks c'.
      fst (doStart w ops s) =
        (case l lo of
           None \<Rightarrow> Inr ()
         | Some e \<Rightarrow>
             if (is_Crash e \<and> 2000 < now_caught w - now_startedAt w) \<or> is_Cancelled e
             then Inr () else Inl e)
    \<and> events_of s (snd (doStart w ops s)) = events_of s s4 @
           [SaveEntity (cave_id c) \<lparr>set_secondsRun = None, set_lastTouched = Some (now_startedAt w)\<rparr>,
            SetInterval]
           @ (if preventDisplaySleep (preferences ops)
              then [PowerSaveStart (powerSaveBlocker_start w)] else [])
           @ [Launcher lt lo] @ ticks @ [ClearInterval]
           @ (if preventDisplaySleep (preferences ops)
              then [PowerSaveStop (Some (powerSaveBlocker_start w))] else [])
           @ [SaveEntity (cave_id c) \<lparr>set_secondsRun = None, set_lastTouched = Some (now_finally w)\<rparr>]
    \<and> list_all is_before_launch (events_of s s4)
    \<and> list_all (is_playtime_write (cave_id c)) ticks
    \<and> length (filter is_ClearInterval (events_of s (snd (doStart w ops s)))) = 1
    \<and> length (filter is_PowerSaveStart (events_of s (snd (doStart w ops s))))
        = (if preventDisplaySleep (preferences ops) then 1 else 0)
    \<and> length (filter is_PowerSaveStop (events_of s (snd (doStart w ops s))))
        = (if preventDisplaySleep (preferences ops) then 1 else 0)
    \<and> PowerSaveStop None \<notin> set (events_of s (snd (doStart w ops s)))
    \<and> \<not> interval (snd (doStart w ops s))
    \<and> caves (snd (doStart w ops s)) (cave_id c) = Some c'
    \<and> lastTouched c' = Some (now_finally w)
    \<and> (if caveProblem (cave ops) = None then c = cave ops
        else caves s4 (cave_id (cave ops)) = Some c)"
proof -
  let ?s' = "snd (doStart w ops s)"
  have d: "doStart w ops s = runLauncher w ops c lt l lo s4"
    by (rule doStart_dispatch(1) [OF assms])
  then have run: "runLauncher w ops c lt l lo s4 = (fst (doStart w ops s), ?s')" by simp
  have res: "fst (doStart w ops s) =
        (case l lo of
           None \<Rightarrow> Inr ()
         | Some e \<Rightarrow>
             if (is_Crash e \<and> 2000 < now_caught w - now_startedAt w) \<or> is_Cancelled e
             then Inr () else Inl e)"
    using doStart_dispatch(2) [OF assms]
    by (auto simp: catchLaunch_def secondsRunning_def split: option.splits)
  from beforeLaunch_extends [OF assms] obtain bf where
    bf: "trace s4 = trace s @ bf" "list_all is_before_launch bf"
    by (auto simp: extends_iff)
  then have e4: "events_of s s4 = bf" by (simp add: events_of_def)
  have before: "list_all is_before_launch (events_of s s4)"
    using bf(2) e4 by simp
  from runLauncher_events [OF run] obtain ticks where
    tr: "trace ?s' = trace s4 @
           [SaveEntity (cave_id c) \<lparr>set_secondsRun = None, set_lastTouched = Some (now_startedAt w)\<rparr>,
            SetInterval]
           @ (if preventDisplaySleep (preferences ops)
              then [PowerSaveStart (powerSaveBlocker_start w)] else [])
           @ [Launcher lt lo] @ ticks @ [ClearInterval]
           @ (if preventDisplaySleep (preferences ops)
              then [PowerSaveStop (Some (powerSaveBlocker_start w))] else [])
           @ [SaveEntity (cave_id c) \<lparr>set_secondsRun = None, set_lastTouched = Some (now_finally w)\<rparr>]"
    and ticks: "list_all (is_playtime_write (cave_id c)) ticks"
    by blast
  have ev: "events_of s ?s' = events_of s s4 @
           [SaveEntity (cave_id c) \<lparr>set_secondsRun = None, set_lastTouched = Some (now_startedAt w)\<rparr>,
            SetInterval]
           @ (if preventDisplaySleep (preferences ops)
              then [PowerSaveStart (powerSaveBlocker_start w)] else [])
           @ [Launcher lt lo] @ ticks @ [ClearInterval]
           @ (if preventDisplaySleep (preferences ops)
              then [PowerSaveStop (Some (powerSaveBlocker_start w))] else [])
           @ [SaveEntity (cave_id c) \<lparr>set_secondsRun = None, set_lastTouched = Some (now_finally w)\<rparr>]"
    unfolding e4 using tr bf(1) by (simp add: events_of_def)
  from runLauncher_final [OF run] obtain c' where
    fin: "\<not> interval ?s'" "caves ?s' (cave_id c) = Some c'" "lastTouched c' = Some (now_finally w)"
    by blast
  have n1: "length (filter is_ClearInterval (events_of s ?s')) = 1"
    unfolding ev using lifecycle_filters(1) [OF before] playtime_filters(1) [OF ticks]
    by (simp add: is_ClearInterval_def)
  have n2: "length (filter is_PowerSaveStart (events_of s ?s'))
        = (if preventDisplaySleep (preferences ops) then 1 else 0)"
    unfolding ev using lifecycle_filters(2) [OF before] playtime_filters(2) [OF ticks]
    by (simp add: is_PowerSaveStart_def)
  have n3: "length (filter is_PowerSaveStop (events_of s ?s'))
        = (if preventDisplaySleep (preferences ops) then 1 else 0)"
    unfolding ev using lifecycle_filters(3) [OF before] playtime_filters(3) [OF ticks]
    by (simp add: is_PowerSaveStop_def)
  have n5: "PowerSaveStop None \<notin> set (events_of s ?s')"
    unfolding ev using lifecycle_filters(5) [OF before] playtime_filters(5) [OF ticks]
    by simp
  note cv = beforeLaunch_cave [OF assms]
  from res ev before ticks n1 n2 n3 n5 fin cv show ?thesis by blast
qed

text \<open>
  A use of C1: the native strategy crashes early, the call throws, and the cleanup has
  run.
\<close>

theorem doStart_cleanup_witness:
  "\<exists>ticks c'.
      fst (doStart world_crash_early ops0 state0) = Inl (Crash ''exit code 1'')
    \<and> events_of state0 (snd (doStart world_crash_early ops0 state0))
        = [SfExists ''/games/g/.itch.toml'', Prepare ''native'' lo0 None]
           @ [SaveEntity ''c1'' \<lparr>set_secondsRun = None, set_lastTouched = Some 1000\<rparr>, SetInterval]
           @ [PowerSaveStart 1] @ [Launcher ''native'' lo0] @ ticks @ [ClearInterval]
           @ [PowerSaveStop (Some 1)]
           @ [SaveEntity ''c1'' \<lparr>set_secondsRun = None, set_lastTouched = Some 1600\<rparr>]
    \<and> \<not> interval (snd (doStart world_crash_early ops0 state0))
    \<and> caves (snd (doStart world_crash_early ops0 state0)) ''c1'' = Some c'
    \<and> lastTouched c' = Some 1600"
proof -
  define s4 where "s4 = state0\<lparr>trace := [SfExists ''/games/g/.itch.toml'', Prepare ''native'' lo0 None]\<rparr>"
  have b: "beforeLaunch world_crash_early ops0 state0
      = (Inr (Some (cave0, ''native'', nativeLaunch world_crash_early, lo0)), s4)"
    by (simp add: run_defs input_defs s4_def)
  have p: "preventDisplaySleep (preferences ops0)" "powerSaveBlocker_start world_crash_early = 1"
     "now_finally world_crash_early = 1600" "now_startedAt world_crash_early = 1000"
     "cave_id cave0 = ''c1''" "events_of state0 s4 = [SfExists ''/games/g/.itch.toml'', Prepare ''native'' lo0 None]"
     "nativeLaunch world_crash_early lo0 = Some (Crash ''exit code 1'')"
     "now_caught world_crash_early = 1500"
    by (simp_all add: input_defs s4_def events_of_def)
  have q: "is_Crash (Crash ''exit code 1'')" "\<not> is_Cancelled (Crash ''exit code 1'')"
    by (simp_all add: is_Crash_def is_Cancelled_def)
  from doStart_cleanup [OF b] show ?thesis
    unfolding p(2-8) eqTrueI [OF p(1)] if_True by (auto simp: q)
qed

subsection \<open>The configure task runs at most once\<close>

lemma extends_no_StartTask:
  assumes "extends P s s'" and "\<And>e. P e \<Longrightarrow> \<not> is_StartTask e"
  shows "filter is_StartTask (events_of s s') = []" and "trace s' = trace s @ events_of s s'"
  using assms by (auto simp: extends_iff events_of_def filter_empty_conv list_all_iff)


lemma beforeLaunch_after_configure:
  assumes "beforeLaunch w ops s = (r, s4)" and "gameLazily w = Inr g"
    and "actionForGame w (game (cave ops)) (cave ops) \<noteq> ''open''"
  shows "\<exists>r1 s1. configureIfProblem w g (cave ops) s = (r1, s1) \<and> extends not_StartTask s1 s4"
proof -
  let ?P = not_StartTask
  have m: "\<And>g a s r s1. resolveManifest w g a s = (r, s1) \<Longrightarrow> extends ?P s s1"
    using resolveManifest_extends [where P = ?P]
    by (simp add: not_StartTask_def is_before_launch_def is_StartTask_def)
  have a: "\<And>g a lt0 ma s r s1. applyManifestAction w ops g a lt0 ma s = (r, s1) \<Longrightarrow> extends ?P s s1"
    using applyManifestAction_extends [where P = ?P]
    by (simp add: not_StartTask_def is_before_launch_def is_StartTask_def)
  have p: "\<And>lt lo m s r s1. runPrepare w lt lo m s = (r, s1) \<Longrightarrow> extends ?P s s1"
    using runPrepare_extends [where P = ?P]
    by (simp add: not_StartTask_def is_before_launch_def is_StartTask_def)
  show ?thesis
    using assms unfolding beforeLaunch_def Let_def
    by (auto split: sum.splits if_splits prod.splits option.splits resolution.splits
        simp: extends_refl dest!: m a p intro: extends_trans)
qed

lemma configureIfProblem_events:
  assumes "configureIfProblem w g c s = (r1, s1)"
  shows "trace s1 = trace s @
     (if caveProblem c = None then []
      else [StartTask \<lparr>task_gameId = game_id g, task_cave = c,
                       task_upload = uploads c (uploadId c)\<rparr>])"
proof (cases "caveProblem c")
  case None
  with assms show ?thesis by (simp add: configureIfProblem_none)
next
  case (Some p)
  with assms show ?thesis
    by (auto simp: configureIfProblem_some Let_def split: sum.splits)
qed

text \<open>The events of the lines before the launch: at most one configure task, and first.\<close>

lemma beforeLaunch_StartTask:
  assumes "beforeLaunch w ops s = (x, s4)"
  shows "\<exists>rest. trace s4 = trace s @
     (case gameLazily w of
        Inl e \<Rightarrow> []
      | Inr g \<Rightarrow>
          if actionForGame w (game (cave ops)) (cave ops) \<noteq> ''open'' \<and> caveProblem (cave ops) \<noteq> None
          then [StartTask \<lparr>task_gameId = game_id g, task_cave = cave ops,
                       task_upload = uploads (cave ops) (uploadId (cave ops))\<rparr>]
          else []) @ rest
     \<and> filter is_StartTask rest = []"
proof (cases "gameLazily w")
  case (Inl e)
  with assms show ?thesis by (simp add: beforeLaunch_def)
next
  case (Inr g)
  show ?thesis
  proof (cases "actionForGame w (game (cave ops)) (cave ops) = ''open''")
    case True
    with assms Inr show ?thesis by (auto simp: beforeLaunch_def is_StartTask_def)
  next
    case False
    from beforeLaunch_after_configure [OF assms Inr False] obtain r1 s1 where
      c: "configureIfProblem w g (cave ops) s = (r1, s1)" and e: "extends not_StartTask s1 s4"
      by blast
    from e obtain rest where rest: "trace s4 = trace s1 @ rest" "list_all not_StartTask rest"
      by (auto simp: extends_iff)
    from rest(2) have "filter is_StartTask rest = []"
      by (auto simp: filter_empty_conv list_all_iff not_StartTask_def)
    with rest(1) configureIfProblem_events [OF c] Inr False show ?thesis by simp
  qed
qed

lemma doStart_StartTask:
  assumes "doStart w ops s = (r, s')"
  shows "\<exists>rest. trace s' = trace s @
     (case gameLazily w of
        Inl e \<Rightarrow> []
      | Inr g \<Rightarrow>
          if actionForGame w (game (cave ops)) (cave ops) \<noteq> ''open'' \<and> caveProblem (cave ops) \<noteq> None
          then [StartTask \<lparr>task_gameId = game_id g, task_cave = cave ops,
                       task_upload = uploads (cave ops) (uploadId (cave ops))\<rparr>]
          else []) @ rest
     \<and> filter is_StartTask rest = []"
proof -
  consider (early) x where "beforeLaunch w ops s = (x, s')"
    | (launch) c lt l lo s4 where "beforeLaunch w ops s = (Inr (Some (c, lt, l, lo)), s4)"
        "runLauncher w ops c lt l lo s4 = (r, s')"
    using doStart_cases [OF assms(1)] by blast
  then show ?thesis
  proof cases
    case early
    then show ?thesis by (rule beforeLaunch_StartTask)
  next
    case launch
    from beforeLaunch_StartTask [OF launch(1)] obtain rest where
      rest: "trace s4 = trace s @
     (case gameLazily w of
        Inl e \<Rightarrow> []
      | Inr g \<Rightarrow>
          if actionForGame w (game (cave ops)) (cave ops) \<noteq> ''open'' \<and> caveProblem (cave ops) \<noteq> None
          then [StartTask \<lparr>task_gameId = game_id g, task_cave = cave ops,
                       task_upload = uploads (cave ops) (uploadId (cave ops))\<rparr>]
          else []) @ rest" "filter is_StartTask rest = []"
      by blast
    from runLauncher_events [OF launch(2)] obtain ticks where
      ticks: "trace s' = trace s4 @
           [SaveEntity (cave_id c) \<lparr>set_secondsRun = None, set_lastTouched = Some (now_startedAt w)\<rparr>,
            SetInterval]
           @ (if preventDisplaySleep (preferences ops)
              then [PowerSaveStart (powerSaveBlocker_start w)] else [])
           @ [Launcher lt lo] @ ticks @ [ClearInterval]
           @ (if preventDisplaySleep (preferences ops)
              then [PowerSaveStop (Some (powerSaveBlocker_start w))] else [])
           @ [SaveEntity (cave_id c) \<lparr>set_secondsRun = None, set_lastTouched = Some (now_finally w)\<rparr>]"
       "list_all (is_playtime_write (cave_id c)) ticks"
      by blast
    from ticks(2) have t: "filter is_StartTask ticks = []"
      by (auto simp: filter_empty_conv list_all_iff is_playtime_write_def is_StartTask_def
          split: event.splits)
    define rest' where "rest' = rest @
           [SaveEntity (cave_id c) \<lparr>set_secondsRun = None, set_lastTouched = Some (now_startedAt w)\<rparr>,
            SetInterval]
           @ (if preventDisplaySleep (preferences ops)
              then [PowerSaveStart (powerSaveBlocker_start w)] else [])
           @ [Launcher lt lo] @ ticks @ [ClearInterval]
           @ (if preventDisplaySleep (preferences ops)
              then [PowerSaveStop (Some (powerSaveBlocker_start w))] else [])
           @ [SaveEntity (cave_id c) \<lparr>set_secondsRun = None, set_lastTouched = Some (now_finally w)\<rparr>]"
    have "filter is_StartTask rest' = []"
      using rest(2) t by (simp add: rest'_def is_StartTask_def)
    moreover have "trace s' = trace s @
     (case gameLazily w of
        Inl e \<Rightarrow> []
      | Inr g \<Rightarrow>
          if actionForGame w (game (cave ops)) (cave ops) \<noteq> ''open'' \<and> caveProblem (cave ops) \<noteq> None
          then [StartTask \<lparr>task_gameId = game_id g, task_cave = cave ops,
                       task_upload = uploads (cave ops) (uploadId (cave ops))\<rparr>]
          else []) @ rest'"
      using rest(1) ticks(1) by (simp add: rest'_def)
    ultimately show ?thesis by blast
  qed
qed

text \<open>A problem that the configure task does not repair.\<close>

lemma doStart_persisting_problem:
  assumes "gameLazily w = Inr g"
    and "actionForGame w (game (cave ops)) (cave ops) \<noteq> ''open''"
    and "caveProblem (cave ops) = Some p"
    and "startTask w \<lparr>task_gameId = game_id g, task_cave = cave ops,
                       task_upload = uploads (cave ops) (uploadId (cave ops))\<rparr> (caves s) = Inr cs"
    and "cs (cave_id (cave ops)) = Some c'"
    and "caveProblem c' = Some p'"
  shows "doStart w ops s =
     (Inl (Error (''The game could not be configured ('' @ join_comma p' @ '')'') (Some p')),
      s\<lparr>caves := cs,
        trace := trace s @ [StartTask \<lparr>task_gameId = game_id g, task_cave = cave ops,
                       task_upload = uploads (cave ops) (uploadId (cave ops))\<rparr>]\<rparr>)"
  using assms
  by (simp add: doStart_def beforeLaunch_def configureIfProblem_some checkProblem_def emit_def Let_def)

text \<open>
  Claim C4. A call runs the configure task at most once. When the checker reports a problem
  for the cave of the call, the task is the first thing the call does, for the upload of
  the cave, and it is not run again; when the task succeeds and the cave that the store
  then holds still has a problem, the call throws the error whose reason is that problem,
  having done nothing else.
\<close>

theorem doStart_configure_once:
  assumes "doStart w ops s = (r, s')"
  shows "length (filter is_StartTask (events_of s s')) \<le> 1
    \<and> (\<forall>g p. gameLazily w = Inr g
          \<and> actionForGame w (game (cave ops)) (cave ops) \<noteq> ''open''
          \<and> caveProblem (cave ops) = Some p \<longrightarrow>
          (\<exists>rest. events_of s s' =
               StartTask \<lparr>task_gameId = game_id g, task_cave = cave ops,
                          task_upload = uploads (cave ops) (uploadId (cave ops))\<rparr> # rest
             \<and> filter is_StartTask rest = [])
        \<and> (\<forall>cs c' p'.
              startTask w \<lparr>task_gameId = game_id g, task_cave = cave ops,
                           task_upload = uploads (cave ops) (uploadId (cave ops))\<rparr> (caves s) = Inr cs
              \<and> cs (cave_id (cave ops)) = Some c' \<and> caveProblem c' = Some p' \<longrightarrow>
              r = Inl (Error (''The game could not be configured ('' @ join_comma p' @ '')'') (Some p'))
              \<and> caves s' = cs
              \<and> events_of s s' =
                  [StartTask \<lparr>task_gameId = game_id g, task_cave = cave ops,
                              task_upload = uploads (cave ops) (uploadId (cave ops))\<rparr>]))"
proof -
  from doStart_StartTask [OF assms] obtain rest where
    rest: "trace s' = trace s @
     (case gameLazily w of
        Inl e \<Rightarrow> []
      | Inr g \<Rightarrow>
          if actionForGame w (game (cave ops)) (cave ops) \<noteq> ''open'' \<and> caveProblem (cave ops) \<noteq> None
          then [StartTask \<lparr>task_gameId = game_id g, task_cave = cave ops,
                       task_upload = uploads (cave ops) (uploadId (cave ops))\<rparr>]
          else []) @ rest" "filter is_StartTask rest = []"
    by blast
  have n: "length (filter is_StartTask (events_of s s')) \<le> 1"
    using rest by (simp add: events_of_def split: sum.splits)
  have first: "\<exists>rest. events_of s s' =
               StartTask \<lparr>task_gameId = game_id g, task_cave = cave ops,
                          task_upload = uploads (cave ops) (uploadId (cave ops))\<rparr> # rest
             \<and> filter is_StartTask rest = []"
    if "gameLazily w = Inr g" "actionForGame w (game (cave ops)) (cave ops) \<noteq> ''open''"
       "caveProblem (cave ops) = Some p" for g p
    using rest that by (simp add: events_of_def)
  have persist: "r = Inl (Error (''The game could not be configured ('' @ join_comma p' @ '')'') (Some p'))
              \<and> caves s' = cs
              \<and> events_of s s' =
                  [StartTask \<lparr>task_gameId = game_id g, task_cave = cave ops,
                              task_upload = uploads (cave ops) (uploadId (cave ops))\<rparr>]"
    if "gameLazily w = Inr g" "actionForGame w (game (cave ops)) (cave ops) \<noteq> ''open''"
       "caveProblem (cave ops) = Some p"
       "startTask w \<lparr>task_gameId = game_id g, task_cave = cave ops,
                           task_upload = uploads (cave ops) (uploadId (cave ops))\<rparr> (caves s) = Inr cs"
       "cs (cave_id (cave ops)) = Some c'" "caveProblem c' = Some p'" for g p cs c' p'
    using doStart_persisting_problem [OF that] assms by (auto simp: events_of_def)
  from n first persist show ?thesis by blast
qed

text \<open>
  A use of C4: a native cave without executables, and a configure task that finds none.
\<close>

theorem doStart_configure_once_witness:
  "length (filter is_StartTask (events_of state_broken (snd (doStart world0 ops_broken state_broken)))) \<le> 1
   \<and> events_of state_broken (snd (doStart world0 ops_broken state_broken)) = [StartTask task_broken]
   \<and> fst (doStart world0 ops_broken state_broken)
       = Inl (Error ''The game could not be configured (game.install.no_executables_found)''
               (Some [''game.install.no_executables_found'']))"
proof -
  let ?g = "\<lparr>game_id = 7, title = ''Game'', coverUrl = None, stillCoverUrl = None\<rparr>"
  let ?p = "[''game.install.no_executables_found'']"
  have a1: "doStart world0 ops_broken state_broken
      = (fst (doStart world0 ops_broken state_broken), snd (doStart world0 ops_broken state_broken))"
    by simp
  have h: "gameLazily world0 = Inr ?g
      \<and> actionForGame world0 (game (cave ops_broken)) (cave ops_broken) \<noteq> ''open''
      \<and> caveProblem (cave ops_broken) = Some ?p"
    by (simp add: input_defs caveProblem_def)
  have t: "\<lparr>task_gameId = game_id ?g, task_cave = cave ops_broken,
            task_upload = uploads (cave ops_broken) (uploadId (cave ops_broken))\<rparr> = task_broken"
    by (simp add: input_defs)
  have k: "startTask world0 \<lparr>task_gameId = game_id ?g, task_cave = cave ops_broken,
            task_upload = uploads (cave ops_broken) (uploadId (cave ops_broken))\<rparr> (caves state_broken)
            = Inr (caves state_broken)
      \<and> caves state_broken (cave_id (cave ops_broken)) = Some cave_broken
      \<and> caveProblem cave_broken = Some ?p"
    by (simp add: input_defs caveProblem_def)
  note th = doStart_configure_once [OF a1]
  have n: "length (filter is_StartTask (events_of state_broken (snd (doStart world0 ops_broken state_broken)))) \<le> 1"
    using th by (rule conjunct1)
  note th2 = th [THEN conjunct2, rule_format, OF h, THEN conjunct2, rule_format, OF k]
  have m: "''The game could not be configured ('' @ join_comma ?p @ '')''
      = ''The game could not be configured (game.install.no_executables_found)''"
    by simp
  from n th2 [unfolded m t] show ?thesis by blast
qed

text \<open>
  Claim C10. When the problem is still there after the configure task, the call throws the
  readiness error whatever the install directory holds: the answers of the file system
  about the manifest (\<open>sf_exists\<close>, \<open>readManifest\<close>) do not change the call, and the
  call never asks for them.
\<close>

theorem doStart_problem_before_manifest:
  assumes "gameLazily w = Inr g"
    and "actionForGame w (game (cave ops)) (cave ops) \<noteq> ''open''"
    and "caveProblem (cave ops) = Some p"
    and "startTask w \<lparr>task_gameId = game_id g, task_cave = cave ops,
                       task_upload = uploads (cave ops) (uploadId (cave ops))\<rparr> (caves s) = Inr cs"
    and "cs (cave_id (cave ops)) = Some c'"
    and "caveProblem c' = Some p'"
  shows "fst (doStart (w\<lparr>sf_exists := ex, readManifest := rd\<rparr>) ops s)
           = Inl (Error (''The game could not be configured ('' @ join_comma p' @ '')'') (Some p'))
    \<and> filter is_manifest_read
         (events_of s (snd (doStart (w\<lparr>sf_exists := ex, readManifest := rd\<rparr>) ops s))) = []
    \<and> doStart (w\<lparr>sf_exists := ex, readManifest := rd\<rparr>) ops s = doStart w ops s"
proof -
  let ?w = "w\<lparr>sf_exists := ex, readManifest := rd\<rparr>"
  have "doStart ?w ops s =
     (Inl (Error (''The game could not be configured ('' @ join_comma p' @ '')'') (Some p')),
      s\<lparr>caves := cs,
        trace := trace s @ [StartTask \<lparr>task_gameId = game_id g, task_cave = cave ops,
                       task_upload = uploads (cave ops) (uploadId (cave ops))\<rparr>]\<rparr>)"
    by (rule doStart_persisting_problem [where p = p and c' = c']) (use assms in simp_all)
  then show ?thesis
    using doStart_persisting_problem [OF assms]
    by (simp add: events_of_def is_manifest_read_def)
qed

text \<open>
  A use of C10: a native cave without executables before and after the configure task, and
  a valid manifest in the install directory.
\<close>

theorem doStart_problem_before_manifest_witness:
  "fst (doStart world_single ops_broken state_broken)
       = Inl (Error ''The game could not be configured (game.install.no_executables_found)''
               (Some [''game.install.no_executables_found'']))
   \<and> filter is_manifest_read (events_of state_broken (snd (doStart world_single ops_broken state_broken))) = []
   \<and> doStart world_single ops_broken state_broken = doStart world0 ops_broken state_broken"
proof -
  let ?g = "\<lparr>game_id = 7, title = ''Game'', coverUrl = None, stillCoverUrl = None\<rparr>"
  let ?p = "[''game.install.no_executables_found'']"
  have h1: "gameLazily world0 = Inr ?g" by (simp add: input_defs)
  have h2: "actionForGame world0 (game (cave ops_broken)) (cave ops_broken) \<noteq> ''open''"
    by (simp add: input_defs)
  have h3: "caveProblem (cave ops_broken) = Some ?p" by (simp add: input_defs caveProblem_def)
  have h4: "startTask world0 \<lparr>task_gameId = game_id ?g, task_cave = cave ops_broken,
            task_upload = uploads (cave ops_broken) (uploadId (cave ops_broken))\<rparr> (caves state_broken)
            = Inr (caves state_broken)"
    by (simp add: input_defs)
  have h5: "caves state_broken (cave_id (cave ops_broken)) = Some cave_broken"
    by (simp add: input_defs)
  have h6: "caveProblem cave_broken = Some ?p" by (simp add: input_defs caveProblem_def)
  have m: "''The game could not be configured ('' @ join_comma ?p @ '')''
      = ''The game could not be configured (game.install.no_executables_found)''"
    by simp
  from doStart_problem_before_manifest [OF h1 h2 h3 h4 h5 h6,
      where ex = "\<lambda>p. True" and rd = "\<lambda>p. Inr manifest_single"]
  show ?thesis unfolding m world_single_def .
qed

subsection \<open>The choice of the manifest action\<close>

lemma applyManifestAction_result:
  assumes "applyManifestAction w ops g a lt0 ma s = (Inr (ma', lt, e, as), s3)"
  shows "ma' = (case ma of None \<Rightarrow> None
                | Some act \<Rightarrow> Some (act\<lparr>path := map_option (replace_first ''{{EXT}}'' (appExt w)) (path act)\<rparr>))"
    and "case ma of None \<Rightarrow> True | Some act \<Rightarrow> path act \<noteq> None"
  using assms
  by (auto simp: applyManifestAction_def Let_def
      split: option.splits if_splits sum.splits)

lemma bigButtonsFor_valid:
  assumes "list_all (\<lambda>a. truthy (name a)) acts"
  shows "\<exists>bbs. bigButtonsFor w i acts = Inr bbs
     \<and> map action_name bbs = map (\<lambda>a. case name a of None \<Rightarrow> [] | Some n \<Rightarrow> n) acts"
  using assms
proof (induction acts arbitrary: i)
  case Nil
  show ?case by simp
next
  case (Cons a acts)
  from Cons.prems have "list_all (\<lambda>a. truthy (name a)) acts" and t: "truthy (name a)" by simp_all
  from Cons.IH [OF this(1), of "Suc i"] obtain bbs where
    "bigButtonsFor w (Suc i) acts = Inr bbs"
    "map action_name bbs = map (\<lambda>a. case name a of None \<Rightarrow> [] | Some n \<Rightarrow> n) acts"
    by blast
  with t show ?case by (simp add: Let_def del: show_nat.simps)
qed

lemma validateManifest_valid:
  assumes "validateManifest m = None" and "actions m = Some acts"
  shows "list_all (\<lambda>a. truthy (name a)) acts"
  using assms by (auto simp: validateManifest_def split: if_splits)

text \<open>What follows the choice of the action adds no modal.\<close>

lemma beforeLaunch_from_resolve:
  assumes "gameLazily w = Inr g"
    and "actionForGame w (game (cave ops)) (cave ops) \<noteq> ''open''"
    and "configureIfProblem w g (cave ops) s = (Inr co, s1)"
    and "checkProblem co = Inr c"
    and "resolveManifest w g (appPath w c) s1 = (r2, s2)"
    and "beforeLaunch w ops s = (x, s4)"
  shows "extends (\<lambda>e. \<not> is_PromisedModal e) s2 s4
     \<and> (r2 = Inr UserCancelled \<longrightarrow> x = Inr None \<and> s4 = s2)
     \<and> (\<forall>mo ma c' lt l lo. r2 = Inr (Resolved mo ma) \<and> x = Inr (Some (c', lt, l, lo)) \<longrightarrow>
           manifestAction lo = (case ma of None \<Rightarrow> None
                | Some act \<Rightarrow> Some (act\<lparr>path := map_option (replace_first ''{{EXT}}'' (appExt w)) (path act)\<rparr>)))"
proof -
  let ?P = "\<lambda>e. \<not> is_PromisedModal e"
  have a: "\<And>g a lt0 ma s r s1. applyManifestAction w ops g a lt0 ma s = (r, s1) \<Longrightarrow> extends ?P s s1"
    using applyManifestAction_extends [where P = ?P] by (simp add: is_PromisedModal_def)
  have ae: "\<And>a lt0 ma s r s3.
        applyManifestAction w ops g a lt0 ma s = (r, s3) \<Longrightarrow>
        extends ?P s s3 \<and> (\<forall>ma' lt e as. r = Inr (ma', lt, e, as) \<longrightarrow>
          ma' = (case ma of None \<Rightarrow> None
                | Some act \<Rightarrow> Some (act\<lparr>path := map_option (replace_first ''{{EXT}}'' (appExt w)) (path act)\<rparr>)))"
    using applyManifestAction_result(1) a by blast
  have p: "\<And>lt lo m s r s1. runPrepare w lt lo m s = (r, s1) \<Longrightarrow> extends ?P s s1"
    using runPrepare_extends [where P = ?P] by (simp add: is_PromisedModal_def)
  show ?thesis
    using assms unfolding beforeLaunch_def Let_def
    by (auto split: sum.splits if_splits prod.splits option.splits resolution.splits
        simp: extends_refl dest!: ae p intro: extends_trans)
qed

text \<open>What follows the lines before the launch is the launch: the strategy, the timer, the
  lock and writes to the store.\<close>

lemma doStart_rest:
  assumes "doStart w ops s = (r, s')"
  shows "\<exists>x s4 rest. beforeLaunch w ops s = (x, s4) \<and> trace s' = trace s4 @ rest
     \<and> trace s4 = trace s @ events_of s s4
     \<and> filter is_PromisedModal rest = []
     \<and> ((\<forall>d. x \<noteq> Inr (Some d)) \<longrightarrow> rest = [] \<and> s' = s4 \<and> r = map_sum id (\<lambda>_. ()) x)"
proof -
  consider (early) x where "beforeLaunch w ops s = (x, s')" "\<forall>d. x \<noteq> Inr (Some d)"
       "r = map_sum id (\<lambda>_. ()) x"
    | (launch) c lt l lo s4 where "beforeLaunch w ops s = (Inr (Some (c, lt, l, lo)), s4)"
        "runLauncher w ops c lt l lo s4 = (r, s')"
    using assms by (auto simp: doStart_def split: prod.splits sum.splits option.splits)
  then show ?thesis
  proof cases
    case early
    from beforeLaunch_extends [OF early(1)] have "trace s' = trace s @ events_of s s'"
      by (auto simp: extends_iff events_of_def)
    with early show ?thesis by auto
  next
    case launch
    from beforeLaunch_extends [OF launch(1)] have b: "trace s4 = trace s @ events_of s s4"
      by (auto simp: extends_iff events_of_def)
    from runLauncher_events [OF launch(2)] obtain ticks where
      ticks: "trace s' = trace s4 @
           [SaveEntity (cave_id c) \<lparr>set_secondsRun = None, set_lastTouched = Some (now_startedAt w)\<rparr>,
            SetInterval]
           @ (if preventDisplaySleep (preferences ops)
              then [PowerSaveStart (powerSaveBlocker_start w)] else [])
           @ [Launcher lt lo] @ ticks @ [ClearInterval]
           @ (if preventDisplaySleep (preferences ops)
              then [PowerSaveStop (Some (powerSaveBlocker_start w))] else [])
           @ [SaveEntity (cave_id c) \<lparr>set_secondsRun = None, set_lastTouched = Some (now_finally w)\<rparr>]"
       "list_all (is_playtime_write (cave_id c)) ticks"
      by blast
    from ticks(2) have t: "filter is_PromisedModal ticks = []"
      by (auto simp: filter_empty_conv list_all_iff is_playtime_write_def is_PromisedModal_def
          split: event.splits)
    define rest where "rest =
           [SaveEntity (cave_id c) \<lparr>set_secondsRun = None, set_lastTouched = Some (now_startedAt w)\<rparr>,
            SetInterval]
           @ (if preventDisplaySleep (preferences ops)
              then [PowerSaveStart (powerSaveBlocker_start w)] else [])
           @ [Launcher lt lo] @ ticks @ [ClearInterval]
           @ (if preventDisplaySleep (preferences ops)
              then [PowerSaveStop (Some (powerSaveBlocker_start w))] else [])
           @ [SaveEntity (cave_id c) \<lparr>set_secondsRun = None, set_lastTouched = Some (now_finally w)\<rparr>]"
    have "filter is_PromisedModal rest = []" using t by (simp add: rest_def is_PromisedModal_def)
    moreover have "trace s' = trace s4 @ rest" using ticks(1) by (simp add: rest_def)
    ultimately show ?thesis using launch(1) b by auto
  qed
qed

lemma resolveManifest_one:
  assumes "sf_exists w (ospath_join w a ''.itch.toml'')"
    and "readManifest w (ospath_join w a ''.itch.toml'') = Inr m"
    and "validateManifest m = None"
    and "actions m = Some [act]"
  shows "resolveManifest w g a s1 =
     (Inr (Resolved (Some m) (Some act)),
      emit (SfReadFile (ospath_join w a ''.itch.toml''))
        (emit (SfExists (ospath_join w a ''.itch.toml'')) s1))"
  using assms by (simp add: resolveManifest_def Let_def)

lemma resolveManifest_many:
  assumes "sf_exists w (ospath_join w a ''.itch.toml'')"
    and "readManifest w (ospath_join w a ''.itch.toml'') = Inr m"
    and "validateManifest m = None"
    and "actions m = Some acts"
    and "1 < length acts"
    and "bigButtonsFor w 0 acts = Inr bbs"
  shows "resolveManifest w g a s1 =
     (case promisedModal w \<lparr>modal_title = title g,
              cover = (if truthy (stillCoverUrl g) then stillCoverUrl g else coverUrl g),
              bigButtons = bbs, buttons = [''cancel'']\<rparr> of
        ModalResponse n \<Rightarrow> Inr (Resolved (Some m) (findWhere_name acts n))
      | ModalClosed \<Rightarrow> Inr UserCancelled,
      emit (PromisedModal \<lparr>modal_title = title g,
              cover = (if truthy (stillCoverUrl g) then stillCoverUrl g else coverUrl g),
              bigButtons = bbs, buttons = [''cancel'']\<rparr>)
       (emit (SfReadFile (ospath_join w a ''.itch.toml''))
        (emit (SfExists (ospath_join w a ''.itch.toml'')) s1)))"
  using assms by (simp add: resolveManifest_def Let_def split: modal_response.splits)

text \<open>
  Claim C6. The call has fetched the game, is not asked to open the folder, has passed the
  readiness check with the cave \<open>c\<close>, and finds in the install directory a manifest
  that parses and is valid. When the manifest has exactly one action, no modal is shown,
  the action is the chosen one, and it is the action of every launch. When it has more
  than one, a modal is shown with one big button for each action, in order, and the single
  button \<^verbatim>\<open>cancel\<close>; when the modal is closed without a choice, the call returns
  normally and neither a prepare nor a launch strategy, nor the timer, nor the lock is
  touched.
\<close>

theorem doStart_manifest_actions:
  assumes g: "gameLazily w = Inr g"
    and no: "actionForGame w (game (cave ops)) (cave ops) \<noteq> ''open''"
    and c1: "configureIfProblem w g (cave ops) s = (Inr co, s1)"
    and c2: "checkProblem co = Inr c"
    and ex: "sf_exists w (ospath_join w (appPath w c) ''.itch.toml'')"
    and rd: "readManifest w (ospath_join w (appPath w c) ''.itch.toml'') = Inr m"
    and v: "validateManifest m = None"
    and ac: "actions m = Some acts"
    and d: "doStart w ops s = (r, s')"
  shows "(\<forall>act. acts = [act] \<longrightarrow>
            filter is_PromisedModal (events_of s s') = []
          \<and> fst (resolveManifest w g (appPath w c) s1) = Inr (Resolved (Some m) (Some act))
          \<and> (\<forall>lt lo. Launcher lt lo \<in> set (events_of s s') \<longrightarrow>
                manifestAction lo =
                  Some (act\<lparr>path := map_option (replace_first ''{{EXT}}'' (appExt w)) (path act)\<rparr>)))
       \<and> (1 < length acts \<longrightarrow>
            (\<exists>bbs. bigButtonsFor w 0 acts = Inr bbs
               \<and> map action_name bbs = map (\<lambda>a. case name a of None \<Rightarrow> [] | Some n \<Rightarrow> n) acts
               \<and> PromisedModal \<lparr>modal_title = title g,
                     cover = (if truthy (stillCoverUrl g) then stillCoverUrl g else coverUrl g),
                     bigButtons = bbs, buttons = [''cancel'']\<rparr> \<in> set (events_of s s')
               \<and> (promisedModal w \<lparr>modal_title = title g,
                     cover = (if truthy (stillCoverUrl g) then stillCoverUrl g else coverUrl g),
                     bigButtons = bbs, buttons = [''cancel'']\<rparr> = ModalClosed \<longrightarrow>
                     r = Inr () \<and> filter is_strategy (events_of s s') = []
                     \<and> filter is_lifecycle (events_of s s') = [])))"
proof -
  let ?mp = "ospath_join w (appPath w c) ''.itch.toml''"
  from doStart_rest [OF d] obtain x s4 rest where
    b: "beforeLaunch w ops s = (x, s4)" and tr: "trace s' = trace s4 @ rest"
    and nm: "filter is_PromisedModal rest = []"
    and early: "(\<forall>d. x \<noteq> Inr (Some d)) \<longrightarrow> rest = [] \<and> s' = s4 \<and> r = map_sum id (\<lambda>_. ()) x"
    by blast
  obtain e1 where e1: "trace s1 = trace s @ e1" "filter is_PromisedModal e1 = []"
    "filter is_strategy e1 = []" "filter is_lifecycle e1 = []"
    using configureIfProblem_events [OF c1]
    by (auto simp: is_PromisedModal_def is_strategy_def is_lifecycle_def)
  have one: ?thesis if single: "acts = [act]" for act
  proof -
    let ?s2 = "emit (SfReadFile ?mp) (emit (SfExists ?mp) s1)"
    have rm: "resolveManifest w g (appPath w c) s1 = (Inr (Resolved (Some m) (Some act)), ?s2)"
      using resolveManifest_one [OF ex rd v] ac single by simp
    note fr = beforeLaunch_from_resolve [OF g no c1 c2 rm b]
    from fr obtain e3 where e3: "trace s4 = trace ?s2 @ e3" "filter is_PromisedModal e3 = []"
      by (auto simp: extends_iff filter_empty_conv list_all_iff)
    have ev: "events_of s s' = e1 @ [SfExists ?mp, SfReadFile ?mp] @ e3 @ rest"
      using tr e3(1) e1(1) by (simp add: events_of_def)
    have n: "filter is_PromisedModal (events_of s s') = []"
      using ev e1(2) e3(2) nm by (simp add: is_PromisedModal_def)
    have sel: "manifestAction lo =
        Some (act\<lparr>path := map_option (replace_first ''{{EXT}}'' (appExt w)) (path act)\<rparr>)"
      if "Launcher lt lo \<in> set (events_of s s')" for lt lo
    proof -
      from doStart_launch [OF d that] obtain c' l s4' where
        "beforeLaunch w ops s = (Inr (Some (c', lt, l, lo)), s4')" by blast
      with b have "x = Inr (Some (c', lt, l, lo))" by simp
      with fr show ?thesis by simp
    qed
    from n rm sel single show ?thesis by simp
  qed
  have many: ?thesis if more: "1 < length acts"
  proof -
    from bigButtonsFor_valid [OF validateManifest_valid [OF v ac], of w 0] obtain bbs where
      bbs: "bigButtonsFor w 0 acts = Inr bbs"
        "map action_name bbs = map (\<lambda>a. case name a of None \<Rightarrow> [] | Some n \<Rightarrow> n) acts"
      by blast
    let ?spec = "\<lparr>modal_title = title g,
                     cover = (if truthy (stillCoverUrl g) then stillCoverUrl g else coverUrl g),
                     bigButtons = bbs, buttons = [''cancel'']\<rparr>"
    let ?s3 = "emit (PromisedModal ?spec) (emit (SfReadFile ?mp) (emit (SfExists ?mp) s1))"
    let ?r2 = "case promisedModal w ?spec of
        ModalResponse n \<Rightarrow> Inr (Resolved (Some m) (findWhere_name acts n))
      | ModalClosed \<Rightarrow> Inr UserCancelled"
    have rm: "resolveManifest w g (appPath w c) s1 = (?r2, ?s3)"
      using resolveManifest_many [OF ex rd v ac more bbs(1)] by simp
    note fr = beforeLaunch_from_resolve [OF g no c1 c2 rm b]
    from fr obtain e3 where e3: "trace s4 = trace ?s3 @ e3"
      by (auto simp: extends_iff)
    have ev: "events_of s s' = e1 @ [SfExists ?mp, SfReadFile ?mp, PromisedModal ?spec] @ e3 @ rest"
      using tr e3(1) e1(1) by (simp add: events_of_def)
    then have shown: "PromisedModal ?spec \<in> set (events_of s s')" by simp
    have closed: "r = Inr () \<and> filter is_strategy (events_of s s') = []
                     \<and> filter is_lifecycle (events_of s s') = []"
      if "promisedModal w ?spec = ModalClosed"
    proof -
      from that fr have x: "x = Inr None" "s4 = ?s3" by simp_all
      with early have "rest = []" "r = Inr ()" by simp_all
      moreover from x(2) e3 have "e3 = []" by simp
      ultimately show ?thesis using ev e1(3,4)
        by (simp add: is_strategy_def is_lifecycle_def)
    qed
    from more bbs shown closed show ?thesis by auto
  qed
  show ?thesis
  proof (cases "1 < length acts")
    case True
    then show ?thesis by (rule many)
  next
    case False
    show ?thesis
    proof (cases "\<exists>act. acts = [act]")
      case True
      then obtain act where "acts = [act]" by blast
      then show ?thesis by (rule one)
    next
      case False
      with \<open>\<not> 1 < length acts\<close> show ?thesis by auto
    qed
  qed
qed

text \<open>
  A use of C6: a manifest with one action, and a manifest with two actions whose modal the
  user closes.
\<close>

theorem doStart_manifest_actions_witness:
  "filter is_PromisedModal (events_of state0 (snd (doStart world_single ops0 state0))) = []
   \<and> fst (doStart world_two ops0 state0) = Inr ()
   \<and> filter is_strategy (events_of state0 (snd (doStart world_two ops0 state0))) = []"
proof -
  have a1: "doStart world_single ops0 state0
      = (fst (doStart world_single ops0 state0), snd (doStart world_single ops0 state0))"
    by simp
  have a2: "doStart world_two ops0 state0
      = (fst (doStart world_two ops0 state0), snd (doStart world_two ops0 state0))"
    by simp
  have g1: "gameLazily world_single = Inr game0" and g2: "gameLazily world_two = Inr game0"
    by (simp_all add: input_defs)
  have n1: "actionForGame world_single (game (cave ops0)) (cave ops0) \<noteq> ''open''"
    and n2: "actionForGame world_two (game (cave ops0)) (cave ops0) \<noteq> ''open''"
    by (simp_all add: input_defs)
  have c1: "configureIfProblem world_single game0 (cave ops0) state0 = (Inr (Some cave0), state0)"
    and c2: "configureIfProblem world_two game0 (cave ops0) state0 = (Inr (Some cave0), state0)"
    by (simp_all add: configureIfProblem_def caveProblem_def input_defs)
  have k: "checkProblem (Some cave0) = Inr cave0"
    by (simp add: checkProblem_def caveProblem_def input_defs)
  have e1: "sf_exists world_single (ospath_join world_single (appPath world_single cave0) ''.itch.toml'')"
    and e2: "sf_exists world_two (ospath_join world_two (appPath world_two cave0) ''.itch.toml'')"
    by (simp_all add: input_defs)
  have r1: "readManifest world_single (ospath_join world_single (appPath world_single cave0) ''.itch.toml'')
       = Inr manifest_single"
    and r2: "readManifest world_two (ospath_join world_two (appPath world_two cave0) ''.itch.toml'')
       = Inr manifest_two"
    by (simp_all add: input_defs)
  have v1: "validateManifest manifest_single = None" and v2: "validateManifest manifest_two = None"
    by (simp_all add: validateManifest_def truthy_def input_defs)
  have m1: "actions manifest_single = Some [action_play]"
    and m2: "actions manifest_two = Some [action_play, action_manual]"
    by (simp_all add: input_defs)
  have closed: "promisedModal world_two = (\<lambda>m. ModalClosed)" by (simp add: input_defs)
  from doStart_manifest_actions [OF g1 n1 c1 k e1 r1 v1 m1 a1]
  have one: "filter is_PromisedModal (events_of state0 (snd (doStart world_single ops0 state0))) = []"
    by blast
  from doStart_manifest_actions [OF g2 n2 c2 k e2 r2 v2 m2 a2]
  have two: "fst (doStart world_two ops0 state0) = Inr ()
     \<and> filter is_strategy (events_of state0 (snd (doStart world_two ops0 state0))) = []"
    unfolding closed by auto
  from one two show ?thesis by blast
qed

subsection \<open>The scoped credential\<close>

lemma quiet_simps [simp]:
  "quiet (StartTask t)" "quiet (SfExists p)" "quiet (SfReadFile p)" "quiet (PromisedModal ms)"
  "quiet (SaveEntity i f)" "quiet SetInterval" "quiet ClearInterval" "quiet (PowerSaveStart n)"
  "quiet (PowerSaveStop x)" "\<not> quiet (Launcher lt lo)" "\<not> quiet (Prepare lt lo m)"
  "\<not> quiet (SubkeyRequest k gi sc)"
  by (simp_all add: quiet_def is_strategy_def is_SubkeyRequest_def)

lemma quiet_playtime: "list_all (is_playtime_write i) es \<Longrightarrow> list_all quiet es"
  unfolding list_all_iff
proof
  fix e assume "\<forall>x \<in> set es. is_playtime_write i x" and "e \<in> set es"
  then have "is_playtime_write i e" by blast
  then show "quiet e" by (cases e) (simp_all add: is_playtime_write_def)
qed

text \<open>From the prepare step on, the strategies get the options that were built.\<close>

lemma doStart_from_prepare:
  assumes b: "beforeLaunch w ops s =
       (case runPrepare w lt lo m s3 of
          (Inl e, s4) \<Rightarrow> (Inl e, s4)
        | (Inr u, s4) \<Rightarrow> (Inr (Some (c, lt, l, lo)), s4))"
  shows "\<exists>post. trace (snd (doStart w ops s)) = trace s3 @ post
     \<and> (\<forall>e \<in> set post. quiet e \<or> e = Launcher lt lo \<or> e = Prepare lt lo m)
     \<and> (Launcher lt lo \<in> set post \<or> Prepare lt lo m \<in> set post)"
proof (cases "runPrepare w lt lo m s3")
  case (Pair r4 s4)
  have s4: "trace s4 = trace s3 @ (if prepares w lt = None then [] else [Prepare lt lo m])"
    and r4: "prepares w lt = None \<longrightarrow> r4 = Inr ()"
    using Pair by (auto simp: runPrepare_def Let_def split: option.splits)
  show ?thesis
  proof (cases r4)
    case (Inl e)
    with b Pair have "beforeLaunch w ops s = (Inl e, s4)" by simp
    then have "doStart w ops s = (Inl e, s4)" by (simp add: doStart_def)
    with s4 r4 Inl show ?thesis by auto
  next
    case (Inr u)
    with b Pair have bl: "beforeLaunch w ops s = (Inr (Some (c, lt, l, lo)), s4)" by simp
    let ?s' = "snd (doStart w ops s)"
    have "runLauncher w ops c lt l lo s4 = (fst (doStart w ops s), ?s')"
      using doStart_dispatch(1) [OF bl] by simp
    from runLauncher_events [OF this] obtain ticks where
      tr: "trace ?s' = trace s4 @
           [SaveEntity (cave_id c) \<lparr>set_secondsRun = None, set_lastTouched = Some (now_startedAt w)\<rparr>,
            SetInterval]
           @ (if preventDisplaySleep (preferences ops)
              then [PowerSaveStart (powerSaveBlocker_start w)] else [])
           @ [Launcher lt lo] @ ticks @ [ClearInterval]
           @ (if preventDisplaySleep (preferences ops)
              then [PowerSaveStop (Some (powerSaveBlocker_start w))] else [])
           @ [SaveEntity (cave_id c) \<lparr>set_secondsRun = None, set_lastTouched = Some (now_finally w)\<rparr>]"
      and ticks: "list_all (is_playtime_write (cave_id c)) ticks"
      by blast
    from quiet_playtime [OF ticks] have q: "\<forall>e \<in> set ticks. quiet e" by (simp add: list_all_iff)
    show ?thesis
      using tr s4 q by (auto split: if_splits)
  qed
qed

lemma quiet_filters:
  assumes "list_all quiet es"
  shows "filter is_strategy es = []" and "filter is_SubkeyRequest es = []"
    and "\<And>lt lo. Launcher lt lo \<notin> set es" and "\<And>lt lo m. Prepare lt lo m \<notin> set es"
  using assms by (auto simp: list_all_iff filter_empty_conv quiet_def is_strategy_def)

text \<open>
  Claim C8. The call has passed the readiness check with the cave \<open>c\<close> and finds a valid
  manifest; the action \<open>a\<close> is the selected one, as the only action of the manifest or
  as the first action with the name that the user picked in the modal; it has a path, which
  the classifier accepts. Then every prepare or launch strategy that runs gets this action
  in its options. When the action has a scope that is not empty, the API client is asked
  for it before any strategy runs and once; when it fails the call throws its error and no
  strategy runs; when it answers, a strategy runs, and the environment of every strategy
  holds the token under \<^verbatim>\<open>ITCHIO_API_KEY\<close> and its expiry under
  \<^verbatim>\<open>ITCHIO_API_KEY_EXPIRES_AT\<close>, and nothing else. Without a scope the API client is not
  asked, a strategy runs, and the environment is empty.
\<close>

theorem doStart_scoped_env:
  assumes g: "gameLazily w = Inr g"
    and no: "actionForGame w (game (cave ops)) (cave ops) \<noteq> ''open''"
    and c1: "configureIfProblem w g (cave ops) s = (Inr co, s1)"
    and c2: "checkProblem co = Inr c"
    and ex: "sf_exists w (ospath_join w (appPath w c) ''.itch.toml'')"
    and rd: "readManifest w (ospath_join w (appPath w c) ''.itch.toml'') = Inr m"
    and v: "validateManifest m = None"
    and ac: "actions m = Some acts"
    and sel: "acts = [a]
        \<or> (1 < length acts
            \<and> (\<exists>bbs n. bigButtonsFor w 0 acts = Inr bbs
                 \<and> promisedModal w \<lparr>modal_title = title g,
                       cover = (if truthy (stillCoverUrl g) then stillCoverUrl g else coverUrl g),
                       bigButtons = bbs, buttons = [''cancel'']\<rparr> = ModalResponse n
                 \<and> find (\<lambda>x. name x = Some n) acts = Some a))"
    and pa: "path a = Some p"
    and cl: "launchTypeForAction w (appPath w c) (replace_first ''{{EXT}}'' (appExt w) p) = Inr lt"
  shows "(\<forall>lt' lo'. Launcher lt' lo' \<in> set (events_of s (snd (doStart w ops s)))
                  \<or> (\<exists>m'. Prepare lt' lo' m' \<in> set (events_of s (snd (doStart w ops s)))) \<longrightarrow>
            lt' = lt \<and> opts lo' = ops
          \<and> manifestAction lo' = Some (a\<lparr>path := Some (replace_first ''{{EXT}}'' (appExt w) p)\<rparr>)
          \<and> (case scope a of
                None \<Rightarrow> env lo' = Map.empty
              | Some sc \<Rightarrow>
                  if sc = [] then env lo' = Map.empty
                  else \<exists>subkey. api_subkey w (key (credentials ops)) (game_id g) sc = Inr subkey
                         \<and> env lo' = [''ITCHIO_API_KEY'' \<mapsto> subkey_key subkey,
                                      ''ITCHIO_API_KEY_EXPIRES_AT'' \<mapsto> expiresAt subkey]))
     \<and> (case scope a of
           None \<Rightarrow>
             filter is_SubkeyRequest (events_of s (snd (doStart w ops s))) = []
             \<and> (\<exists>lo'. Launcher lt lo' \<in> set (events_of s (snd (doStart w ops s)))
                     \<or> (\<exists>m'. Prepare lt lo' m' \<in> set (events_of s (snd (doStart w ops s)))))
         | Some sc \<Rightarrow>
             if sc = [] then
               filter is_SubkeyRequest (events_of s (snd (doStart w ops s))) = []
               \<and> (\<exists>lo'. Launcher lt lo' \<in> set (events_of s (snd (doStart w ops s)))
                       \<or> (\<exists>m'. Prepare lt lo' m' \<in> set (events_of s (snd (doStart w ops s)))))
             else
               (\<exists>pre post. events_of s (snd (doStart w ops s))
                     = pre @ SubkeyRequest (key (credentials ops)) (game_id g) sc # post
                   \<and> filter is_strategy pre = [] \<and> filter is_SubkeyRequest pre = []
                   \<and> filter is_SubkeyRequest post = [])
               \<and> (case api_subkey w (key (credentials ops)) (game_id g) sc of
                     Inl e \<Rightarrow>
                       fst (doStart w ops s) = Inl e
                       \<and> filter is_strategy (events_of s (snd (doStart w ops s))) = []
                   | Inr subkey \<Rightarrow>
                       (\<exists>lo'. Launcher lt lo' \<in> set (events_of s (snd (doStart w ops s)))
                           \<or> (\<exists>m'. Prepare lt lo' m' \<in> set (events_of s (snd (doStart w ops s)))))))"
  (is "(\<forall>lt' lo'. ?P lt' lo' \<longrightarrow> ?Q lt' lo') \<and> ?B")
proof -
  let ?mp = "ospath_join w (appPath w c) ''.itch.toml''"
  let ?ev = "events_of s (snd (doStart w ops s))"
  let ?a' = "a\<lparr>path := Some (replace_first ''{{EXT}}'' (appExt w) p)\<rparr>"
  let ?args = "case args a of None \<Rightarrow> [] | Some xs \<Rightarrow> xs"
  let ?lt0 = "case launchType (cave ops) of None \<Rightarrow> ''native'' | Some t \<Rightarrow> t"
  let ?m' = "rewrittenManifest (Some m) (Some a) (Some ?a')"
  have rm: "\<exists>s2. resolveManifest w g (appPath w c) s1 = (Inr (Resolved (Some m) (Some a)), s2)"
    using sel
  proof
    assume "acts = [a]"
    with resolveManifest_one [OF ex rd v] ac show ?thesis by simp
  next
    assume multi: "1 < length acts
            \<and> (\<exists>bbs n. bigButtonsFor w 0 acts = Inr bbs
                 \<and> promisedModal w \<lparr>modal_title = title g,
                       cover = (if truthy (stillCoverUrl g) then stillCoverUrl g else coverUrl g),
                       bigButtons = bbs, buttons = [''cancel'']\<rparr> = ModalResponse n
                 \<and> find (\<lambda>x. name x = Some n) acts = Some a)"
    then obtain bbs n where more: "1 < length acts" and bbs: "bigButtonsFor w 0 acts = Inr bbs"
      and pm: "promisedModal w \<lparr>modal_title = title g,
                       cover = (if truthy (stillCoverUrl g) then stillCoverUrl g else coverUrl g),
                       bigButtons = bbs, buttons = [''cancel'']\<rparr> = ModalResponse n"
      and f: "find (\<lambda>x. name x = Some n) acts = Some a"
      by blast
    from resolveManifest_many [OF ex rd v ac more bbs, of g s1] pm f show ?thesis
      by (simp add: findWhere_name_def)
  qed
  then obtain s2 where rm: "resolveManifest w g (appPath w c) s1 = (Inr (Resolved (Some m) (Some a)), s2)"
    by blast
  from resolveManifest_extends [OF rm, where P = quiet] obtain e2 where
    e2: "trace s2 = trace s1 @ e2" "list_all quiet e2"
    by (auto simp: extends_iff)
  from configureIfProblem_extends [OF c1, where P = quiet] obtain e1 where
    e1: "trace s1 = trace s @ e1" "list_all quiet e1"
    by (auto simp: extends_iff)
  from launchTypeForAction_own_key [OF cl] launchers_own_keys [of lt w]
  obtain l where l: "launchers w lt = Some l" by blast
  have bl: "beforeLaunch w ops s =
      (case applyManifestAction w ops g (appPath w c) ?lt0 (Some a) s2 of
         (Inl e, s3) \<Rightarrow> (Inl e, s3)
       | (Inr (ma', lt, env_v, args_v), s3) \<Rightarrow>
           (case launchers w lt of
              None \<Rightarrow> (Inl (Error (''Unsupported launch type '' @ [CHR 0x27]
                            @ (case launchType c of None \<Rightarrow> ''undefined'' | Some t \<Rightarrow> t)
                            @ [CHR 0x27]) None), s3)
            | Some launcher \<Rightarrow>
                (case runPrepare w lt \<lparr>opts = ops, manifestAction = ma', env = env_v, args_of = args_v\<rparr>
                        (rewrittenManifest (Some m) (Some a) ma') s3 of
                   (Inl e, s4) \<Rightarrow> (Inl e, s4)
                 | (Inr u, s4) \<Rightarrow>
                     (Inr (Some (c, lt, launcher,
                        \<lparr>opts = ops, manifestAction = ma', env = env_v, args_of = args_v\<rparr>)), s4))))"
    unfolding beforeLaunch_def Let_def by (simp add: g no c1 c2 rm)
  have quiet12: "list_all quiet (e1 @ e2)" using e1(2) e2(2) by simp
  note q12 = quiet_filters [OF quiet12]
  have plain: ?thesis if ns: "\<not> truthy (scope a)"
  proof -
    let ?lo = "\<lparr>opts = ops, manifestAction = Some ?a', env = Map.empty, args_of = ?args\<rparr>"
    have ap: "applyManifestAction w ops g (appPath w c) ?lt0 (Some a) s2
        = (Inr (Some ?a', lt, Map.empty, ?args), s2)"
      using ns by (simp add: applyManifestAction_def pa cl Let_def)
    have "beforeLaunch w ops s =
       (case runPrepare w lt ?lo ?m' s2 of
          (Inl e, s4) \<Rightarrow> (Inl e, s4)
        | (Inr u, s4) \<Rightarrow> (Inr (Some (c, lt, l, ?lo)), s4))"
      unfolding bl ap by (simp add: l)
    from doStart_from_prepare [OF this] obtain post where
      post: "trace (snd (doStart w ops s)) = trace s2 @ post"
        "\<forall>e \<in> set post. quiet e \<or> e = Launcher lt ?lo \<or> e = Prepare lt ?lo ?m'"
        "Launcher lt ?lo \<in> set post \<or> Prepare lt ?lo ?m' \<in> set post"
      by blast
    have ev: "?ev = (e1 @ e2) @ post"
      using post(1) e1(1) e2(1) by (simp add: events_of_def)
    have only: "lt' = lt \<and> lo' = ?lo"
      if "Launcher lt' lo' \<in> set ?ev \<or> (\<exists>m'. Prepare lt' lo' m' \<in> set ?ev)" for lt' lo'
      using that post(2) q12(3,4) unfolding ev by auto
    have some: "\<exists>lo'. Launcher lt lo' \<in> set ?ev \<or> (\<exists>m'. Prepare lt lo' m' \<in> set ?ev)"
      using post(3) unfolding ev by auto
    have nosub: "filter is_SubkeyRequest ?ev = []"
      using post(2) q12(2) unfolding ev
      by (auto simp: filter_empty_conv quiet_def is_SubkeyRequest_def)
    have A: "\<forall>lt' lo'. ?P lt' lo' \<longrightarrow> ?Q lt' lo'"
    proof (intro allI impI)
      fix lt' lo'
      assume "?P lt' lo'"
      from only [OF this] have "lt' = lt" "lo' = ?lo" by simp_all
      with ns show "?Q lt' lo'"
        by (auto simp: truthy_def split: option.splits)
    qed
    from ns have "scope a = None \<or> scope a = Some []"
      by (auto simp: truthy_def split: option.splits)
    then have B: ?B
    proof
      assume "scope a = None"
      with some nosub show ?B by simp
    next
      assume "scope a = Some []"
      with some nosub show ?B by simp
    qed
    from A B show ?thesis by (rule conjI)
  qed
  have scoped: ?thesis if ts: "truthy (scope a)"
  proof -
    from ts obtain sc where sc: "scope a = Some sc" "sc \<noteq> []"
      by (auto simp: truthy_def split: option.splits)
    let ?req = "SubkeyRequest (key (credentials ops)) (game_id g) sc"
    let ?s3 = "emit ?req s2"
    show ?thesis
    proof (cases "api_subkey w (key (credentials ops)) (game_id g) sc")
      case (Inl e)
      have ap: "applyManifestAction w ops g (appPath w c) ?lt0 (Some a) s2 = (Inl e, ?s3)"
        using ts sc Inl by (simp add: applyManifestAction_def pa cl Let_def)
      have "beforeLaunch w ops s = (Inl e, ?s3)" unfolding bl ap by simp
      then have d: "doStart w ops s = (Inl e, ?s3)" by (simp add: doStart_def)
      have ev: "?ev = (e1 @ e2) @ [?req]"
        using d e1(1) e2(1) by (simp add: events_of_def)
      have nost: "filter is_strategy ?ev = []"
        unfolding ev using q12(1) by (simp add: is_strategy_def)
      have split: "\<exists>pre post. ?ev = pre @ ?req # post
                   \<and> filter is_strategy pre = [] \<and> filter is_SubkeyRequest pre = []
                   \<and> filter is_SubkeyRequest post = []"
        using ev q12(1,2) by (intro exI [of _ "e1 @ e2"] exI [of _ "[]"]) simp
      have none: "\<not> (Launcher lt' lo' \<in> set ?ev \<or> (\<exists>m'. Prepare lt' lo' m' \<in> set ?ev))" for lt' lo'
        unfolding ev using q12(3,4) by auto
      have A: "\<forall>lt' lo'. ?P lt' lo' \<longrightarrow> ?Q lt' lo'"
        using none by blast
      have "fst (doStart w ops s) = Inl e" using d by simp
      with nost split sc Inl have B: ?B by simp
      from A B show ?thesis by (rule conjI)
    next
      case (Inr subkey)
      let ?env = "[''ITCHIO_API_KEY'' \<mapsto> subkey_key subkey,
                   ''ITCHIO_API_KEY_EXPIRES_AT'' \<mapsto> expiresAt subkey]"
      let ?lo = "\<lparr>opts = ops, manifestAction = Some ?a', env = ?env, args_of = ?args\<rparr>"
      have ap: "applyManifestAction w ops g (appPath w c) ?lt0 (Some a) s2
          = (Inr (Some ?a', lt, ?env, ?args), ?s3)"
        using ts sc Inr by (simp add: applyManifestAction_def pa cl Let_def)
      have "beforeLaunch w ops s =
         (case runPrepare w lt ?lo ?m' ?s3 of
            (Inl e, s4) \<Rightarrow> (Inl e, s4)
          | (Inr u, s4) \<Rightarrow> (Inr (Some (c, lt, l, ?lo)), s4))"
        unfolding bl ap by (simp add: l)
      from doStart_from_prepare [OF this] obtain post where
        post: "trace (snd (doStart w ops s)) = trace ?s3 @ post"
          "\<forall>e \<in> set post. quiet e \<or> e = Launcher lt ?lo \<or> e = Prepare lt ?lo ?m'"
          "Launcher lt ?lo \<in> set post \<or> Prepare lt ?lo ?m' \<in> set post"
        by blast
      have ev: "?ev = (e1 @ e2) @ ?req # post"
        using post(1) e1(1) e2(1) by (simp add: events_of_def)
      have only: "lt' = lt \<and> lo' = ?lo"
        if "Launcher lt' lo' \<in> set ?ev \<or> (\<exists>m'. Prepare lt' lo' m' \<in> set ?ev)" for lt' lo'
        using that post(2) q12(3,4) unfolding ev by auto
      have some: "\<exists>lo'. Launcher lt lo' \<in> set ?ev \<or> (\<exists>m'. Prepare lt lo' m' \<in> set ?ev)"
        using post(3) unfolding ev by auto
      have psub: "filter is_SubkeyRequest post = []"
        using post(2) by (auto simp: filter_empty_conv quiet_def is_SubkeyRequest_def)
      have split: "\<exists>pre post. ?ev = pre @ ?req # post
                   \<and> filter is_strategy pre = [] \<and> filter is_SubkeyRequest pre = []
                   \<and> filter is_SubkeyRequest post = []"
        using ev q12(1,2) psub by (intro exI [of _ "e1 @ e2"] exI [of _ post]) simp
      have A: "\<forall>lt' lo'. ?P lt' lo' \<longrightarrow> ?Q lt' lo'"
      proof (intro allI impI)
        fix lt' lo'
        assume "?P lt' lo'"
        from only [OF this] have "lt' = lt" "lo' = ?lo" by simp_all
        with sc Inr show "?Q lt' lo'" by simp
      qed
      from some split sc Inr have B: ?B by simp
      from A B show ?thesis by (rule conjI)
    qed
  qed
  from plain scoped show ?thesis by blast
qed

text \<open>
  A use of C8: the user picks, of two actions, the one that asks for the scope
  \<^verbatim>\<open>profile:me\<close>.
\<close>

theorem doStart_scoped_env_witness:
  "\<exists>lo'. (Launcher ''shell'' lo' \<in> set (events_of state0 (snd (doStart world_pick ops0 state0)))
           \<or> (\<exists>m'. Prepare ''shell'' lo' m' \<in> set (events_of state0 (snd (doStart world_pick ops0 state0)))))
         \<and> manifestAction lo' = Some (action_play\<lparr>path := Some ''game''\<rparr>)
         \<and> env lo' = [''ITCHIO_API_KEY'' \<mapsto> ''sub'', ''ITCHIO_API_KEY_EXPIRES_AT'' \<mapsto> ''2030'']"
proof -
  let ?acts = "[action_play, action_manual]"
  have g: "gameLazily world_pick = Inr game0" by (simp add: input_defs)
  have no: "actionForGame world_pick (game (cave ops0)) (cave ops0) \<noteq> ''open''"
    by (simp add: input_defs)
  have c1: "configureIfProblem world_pick game0 (cave ops0) state0 = (Inr (Some cave0), state0)"
    by (simp add: configureIfProblem_def caveProblem_def input_defs)
  have c2: "checkProblem (Some cave0) = Inr cave0"
    by (simp add: checkProblem_def caveProblem_def input_defs)
  have ex: "sf_exists world_pick (ospath_join world_pick (appPath world_pick cave0) ''.itch.toml'')"
    by (simp add: input_defs)
  have rd: "readManifest world_pick (ospath_join world_pick (appPath world_pick cave0) ''.itch.toml'')
       = Inr manifest_two"
    by (simp add: input_defs)
  have v: "validateManifest manifest_two = None"
    by (simp add: validateManifest_def truthy_def input_defs)
  have ac: "actions manifest_two = Some ?acts" by (simp add: input_defs)
  from bigButtonsFor_valid [OF validateManifest_valid [OF v ac], of world_pick 0]
  obtain bbs where bbs: "bigButtonsFor world_pick 0 ?acts = Inr bbs" by blast
  have pm: "promisedModal world_pick \<lparr>modal_title = title game0,
        cover = (if truthy (stillCoverUrl game0) then stillCoverUrl game0 else coverUrl game0),
        bigButtons = bbs, buttons = [''cancel'']\<rparr> = ModalResponse ''play''"
    by (simp add: input_defs)
  have f: "find (\<lambda>x. name x = Some ''play'') ?acts = Some action_play"
    by (simp add: input_defs)
  have sel: "?acts = [action_play]
        \<or> (1 < length ?acts
            \<and> (\<exists>bbs n. bigButtonsFor world_pick 0 ?acts = Inr bbs
                 \<and> promisedModal world_pick \<lparr>modal_title = title game0,
                       cover = (if truthy (stillCoverUrl game0) then stillCoverUrl game0 else coverUrl game0),
                       bigButtons = bbs, buttons = [''cancel'']\<rparr> = ModalResponse n
                 \<and> find (\<lambda>x. name x = Some n) ?acts = Some action_play))"
    using bbs pm f by auto
  have pa: "path action_play = Some ''game{{EXT}}''" by (simp add: input_defs)
  have rp: "replace_first ''{{EXT}}'' (appExt world_pick) ''game{{EXT}}'' = ''game''"
    by (simp add: appExt_def input_defs)
  have cl: "launchTypeForAction world_pick (appPath world_pick cave0)
        (replace_first ''{{EXT}}'' (appExt world_pick) ''game{{EXT}}'') = Inr ''shell''"
    unfolding rp by (simp add: launchTypeForAction_def re_defs suffix_def input_defs)
  have sc: "scope action_play = Some ''profile:me''" by (simp add: input_defs)
  have k: "api_subkey world_pick (key (credentials ops0)) (game_id game0) ''profile:me''
      = Inr \<lparr>subkey_key = ''sub'', expiresAt = ''2030''\<rparr>"
    by (simp add: input_defs)
  have ne: "(''profile:me'' = []) = False" by simp
  note th = doStart_scoped_env [OF g no c1 c2 ex rd v ac sel pa cl,
      unfolded rp sc option.case ne if_False k sum.case]
  note A = th [THEN conjunct1] and B = th [THEN conjunct2, THEN conjunct2]
  from B obtain lo' where
    h: "Launcher ''shell'' lo' \<in> set (events_of state0 (snd (doStart world_pick ops0 state0)))
         \<or> (\<exists>m'. Prepare ''shell'' lo' m' \<in> set (events_of state0 (snd (doStart world_pick ops0 state0))))"
    by blast
  from A [rule_format, OF h]
  have "manifestAction lo' = Some (action_play\<lparr>path := Some ''game''\<rparr>)
      \<and> env lo' = [''ITCHIO_API_KEY'' \<mapsto> ''sub'', ''ITCHIO_API_KEY_EXPIRES_AT'' \<mapsto> ''2030'']"
    by auto
  with h show ?thesis by blast
qed

end
